theory Spec2Isabelle
  imports Complex_Main "HOL-Library.Word"
begin

section \<open>JSON nodes as json-glib presents them\<close>

text \<open>
  A \<open>JsonNode\<close> is a null, a value (boolean, 64-bit integer, double, string), an array
  or an object. An object keeps its members in insertion order and holds one node per
  member name; it is modelled as an association list that is read with \<open>map_of\<close>.
  A C pointer that may be \<open>NULL\<close> is an \<open>option\<close>.
\<close>

datatype json =
    JNull
  | JBool bool
  | JInt "64 word"
  | JDouble real
  | JString string
  | JArray "json list"
  | JObject "(string \<times> json) list"

datatype JsonNodeType = JSON_NODE_OBJECT | JSON_NODE_ARRAY | JSON_NODE_VALUE | JSON_NODE_NULL

datatype GType = G_TYPE_INVALID | G_TYPE_BOOLEAN | G_TYPE_INT64 | G_TYPE_DOUBLE | G_TYPE_STRING

fun json_node_get_node_type :: "json \<Rightarrow> JsonNodeType" where
  "json_node_get_node_type (JObject _) = JSON_NODE_OBJECT"
| "json_node_get_node_type (JArray _) = JSON_NODE_ARRAY"
| "json_node_get_node_type JNull = JSON_NODE_NULL"
| "json_node_get_node_type _ = JSON_NODE_VALUE"

fun json_node_get_value_type :: "json \<Rightarrow> GType" where
  "json_node_get_value_type (JBool _) = G_TYPE_BOOLEAN"
| "json_node_get_value_type (JInt _) = G_TYPE_INT64"
| "json_node_get_value_type (JDouble _) = G_TYPE_DOUBLE"
| "json_node_get_value_type (JString _) = G_TYPE_STRING"
| "json_node_get_value_type _ = G_TYPE_INVALID"

text \<open>
  The typed getters of json-glib convert between value types and answer a default
  (\<open>NULL\<close>, 0, \<open>FALSE\<close>) for a node that holds nothing convertible:
  \<open>json_node_get_string\<close> answers \<open>NULL\<close> for everything but a string,
  \<open>json_node_get_int\<close> truncates a double, reads a boolean as 0 or 1 and answers 0
  otherwise, \<open>json_node_get_boolean\<close> reads a number as "not zero". For an object or
  array node the getters are outside json-glib's contract; the default is taken there.
  The C conversion of a double to \<open>gint64\<close> is defined only for a double whose integer
  part is in the range of \<open>gint64\<close>; \<open>double_to_gint64\<close> is that conversion there, and
  nothing below rests on its value elsewhere.
\<close>

fun json_node_get_string :: "json \<Rightarrow> string option" where
  "json_node_get_string (JString s) = Some s"
| "json_node_get_string _ = None"

definition double_to_gint64 :: "real \<Rightarrow> 64 word" where
  "double_to_gint64 d = word_of_int (if d < 0 then \<lceil>d\<rceil> else \<lfloor>d\<rfloor>)"

fun json_node_get_int :: "json \<Rightarrow> 64 word" where
  "json_node_get_int (JInt n) = n"
| "json_node_get_int (JDouble d) = double_to_gint64 d"
| "json_node_get_int (JBool b) = (if b then 1 else 0)"
| "json_node_get_int _ = 0"

fun json_node_get_boolean :: "json \<Rightarrow> bool" where
  "json_node_get_boolean (JBool b) = b"
| "json_node_get_boolean (JInt n) = (n \<noteq> 0)"
| "json_node_get_boolean (JDouble d) = (d \<noteq> 0)"
| "json_node_get_boolean _ = False"

definition json_object_get_member :: "(string \<times> json) list \<Rightarrow> string \<Rightarrow> json option" where
  "json_object_get_member obj name = map_of obj name"

definition json_object_has_member :: "(string \<times> json) list \<Rightarrow> string \<Rightarrow> bool" where
  "json_object_has_member obj name = (map_of obj name \<noteq> None)"

definition json_object_get_string_member :: "(string \<times> json) list \<Rightarrow> string \<Rightarrow> string option" where
  "json_object_get_string_member obj name =
     (case map_of obj name of None \<Rightarrow> None | Some node \<Rightarrow> json_node_get_string node)"

definition json_object_get_int_member :: "(string \<times> json) list \<Rightarrow> string \<Rightarrow> 64 word" where
  "json_object_get_int_member obj name =
     (case map_of obj name of None \<Rightarrow> 0 | Some node \<Rightarrow> json_node_get_int node)"

text \<open>Setting a member replaces the node of an existing name in place and appends a new name.\<close>

fun json_object_set_member :: "(string \<times> json) list \<Rightarrow> string \<Rightarrow> json \<Rightarrow> (string \<times> json) list" where
  "json_object_set_member [] name v = [(name, v)]"
| "json_object_set_member ((k, w) # obj) name v =
     (if k = name then (k, v) # obj else (k, w) # json_object_set_member obj name v)"

fun json_array_get_object_element :: "json \<Rightarrow> (string \<times> json) list option" where
  "json_array_get_object_element (JObject schema) = Some schema"
| "json_array_get_object_element _ = None"

text \<open>
  \<open>json_parser_load_from_data\<close> is a parameter \<open>load\<close>: \<open>None\<close> is a failed load,
  \<open>Some r\<close> a successful one whose root \<open>r\<close> may be \<open>NULL\<close> (empty input). A \<open>NULL\<close>
  data pointer fails the load. \<open>json_node_get_node_type\<close> of a \<open>NULL\<close> root answers
  \<open>JSON_NODE_NULL\<close>, which is neither the array nor the object type.
\<close>

definition json_parser_load_from_data ::
  "(string \<Rightarrow> json option option) \<Rightarrow> string option \<Rightarrow> json option option" where
  "json_parser_load_from_data load data = (case data of None \<Rightarrow> None | Some s \<Rightarrow> load s)"

section \<open>The method registry\<close>

text \<open>
  A callback receives the method name, the schema of the parameters, the parameters and
  the user data, and fills \<open>result\<close> and \<open>error\<close>. Whatever else it does is a change of
  a world \<open>'w\<close> that is passed through. The table of methods itself is not in that world:
  a callback that registers or unregisters methods is outside this model.

  The fields of the two structures carry the prefixes \<open>m_\<close> and \<open>mth_\<close>, since both have
  \<open>params\<close>, \<open>result\<close>, \<open>callback\<close> and \<open>user_data\<close>. The arguments \<open>group\<close> and \<open>id\<close> of
  the source are \<open>grp\<close> and \<open>sid\<close> here, the names being taken in HOL.
\<close>

type_synonym ('u, 'w) MeloJSONRPCCallback =
  "string \<Rightarrow> json list option \<Rightarrow> json option \<Rightarrow> 'u \<Rightarrow> 'w \<Rightarrow> (json option \<times> json option) \<times> 'w"

record ('u, 'w) MeloJSONRPCInternalMethod =
  m_params :: "json list option"
  m_result :: "(string \<times> json) list option"
  m_callback :: "('u, 'w) MeloJSONRPCCallback option"
  m_user_data :: 'u

text \<open>
  The \<open>GHashTable\<close> from qualified names to methods, as an association list. The variable
  \<open>melo_jsonrpc_methods\<close> is a pointer to it, \<open>NULL\<close> before the first registration and
  after the last removal. GLib's functions check their table argument and return at once
  (logging a critical message) when it is \<open>NULL\<close>: \<open>g_hash_table_remove\<close> and
  \<open>g_hash_table_unref\<close> do nothing then and \<open>g_hash_table_size\<close> answers 0.
  \<open>g_slice_new\<close> ends the process rather than answer \<open>NULL\<close>, so the only way to
  \<open>failed\<close> in \<open>melo_jsonrpc_register_method\<close> is a name that is registered already.
\<close>

type_synonym ('u, 'w) GHashTable = "(string \<times> ('u, 'w) MeloJSONRPCInternalMethod) list"

definition g_hash_table_lookup :: "('k \<times> 'v) list \<Rightarrow> 'k \<Rightarrow> 'v option" where
  "g_hash_table_lookup tbl key = map_of tbl key"

fun g_hash_table_insert :: "('k \<times> 'v) list \<Rightarrow> 'k \<Rightarrow> 'v \<Rightarrow> ('k \<times> 'v) list" where
  "g_hash_table_insert [] key v = [(key, v)]"
| "g_hash_table_insert ((k, w) # tbl) key v =
     (if k = key then (k, v) # tbl else (k, w) # g_hash_table_insert tbl key v)"

definition g_hash_table_remove :: "('k \<times> 'v) list option \<Rightarrow> 'k \<Rightarrow> ('k \<times> 'v) list option" where
  "g_hash_table_remove tbl key =
     (case tbl of None \<Rightarrow> None | Some t \<Rightarrow> Some (filter (\<lambda>kv. fst kv \<noteq> key) t))"

definition g_hash_table_size :: "('k \<times> 'v) list option \<Rightarrow> nat" where
  "g_hash_table_size tbl = (case tbl of None \<Rightarrow> 0 | Some t \<Rightarrow> length t)"

definition complete_method :: "string \<Rightarrow> string \<Rightarrow> string" where
  "complete_method grp method = grp @ ''.'' @ method"

definition melo_jsonrpc_register_method ::
  "string \<Rightarrow> string \<Rightarrow> json list option \<Rightarrow> (string \<times> json) list option \<Rightarrow>
   ('u, 'w) MeloJSONRPCCallback option \<Rightarrow> 'u \<Rightarrow>
   ('u, 'w) GHashTable option \<Rightarrow> bool \<times> ('u, 'w) GHashTable option" where
  "melo_jsonrpc_register_method grp method params result callback user_data methods =
     (let tbl = (case methods of None \<Rightarrow> [] | Some t \<Rightarrow> t) in
      if g_hash_table_lookup tbl (complete_method grp method) \<noteq> None
      then (False, Some tbl)
      else (True, Some (g_hash_table_insert tbl (complete_method grp method)
              \<lparr>m_params = params, m_result = result,
               m_callback = callback, m_user_data = user_data\<rparr>)))"

definition melo_jsonrpc_unregister_method ::
  "string \<Rightarrow> string \<Rightarrow> ('u, 'w) GHashTable option \<Rightarrow> ('u, 'w) GHashTable option" where
  "melo_jsonrpc_unregister_method grp method methods =
     (let tbl = g_hash_table_remove methods (complete_method grp method) in
      if g_hash_table_size tbl = 0 then None else tbl)"

record ('u, 'w) MeloJSONRPCMethod =
  mth_method :: string
  mth_params :: "string option"
  mth_result :: "string option"
  mth_callback :: "('u, 'w) MeloJSONRPCCallback option"
  mth_user_data :: 'u

text \<open>
  The loop of \<open>melo_jsonrpc_register_methods\<close>, over the remaining entries, with the
  error counter and the table. A schema string that does not load gives a \<open>NULL\<close>
  schema; one that loads to a root of the wrong type ends the iteration (\<open>continue\<close>)
  before the method is registered and before the counter is touched.
\<close>

fun register_methods_loop ::
  "(string \<Rightarrow> json option option) \<Rightarrow> string \<Rightarrow> ('u, 'w) MeloJSONRPCMethod list \<Rightarrow> nat \<Rightarrow>
   ('u, 'w) GHashTable option \<Rightarrow> nat \<times> ('u, 'w) GHashTable option" where
  "register_methods_loop load grp [] errors methods = (errors, methods)"
| "register_methods_loop load grp (e # es) errors methods =
     (case (case json_parser_load_from_data load (mth_params e) of
              Some r \<Rightarrow> (case r of Some (JArray a) \<Rightarrow> Some (Some a) | _ \<Rightarrow> None)
            | None \<Rightarrow> Some None) of
        None \<Rightarrow> register_methods_loop load grp es errors methods
      | Some params \<Rightarrow>
         (case (case json_parser_load_from_data load (mth_result e) of
                  Some r \<Rightarrow> (case r of Some (JObject ob) \<Rightarrow> Some (Some ob) | _ \<Rightarrow> None)
                | None \<Rightarrow> Some None) of
            None \<Rightarrow> register_methods_loop load grp es errors methods
          | Some result \<Rightarrow>
             (let (ret, methods') =
                    melo_jsonrpc_register_method grp (mth_method e) params result
                      (mth_callback e) (mth_user_data e) methods
              in register_methods_loop load grp es
                   (if \<not> ret then errors + 1 else errors) methods')))"

definition melo_jsonrpc_register_methods ::
  "(string \<Rightarrow> json option option) \<Rightarrow> string \<Rightarrow> ('u, 'w) MeloJSONRPCMethod list \<Rightarrow>
   ('u, 'w) GHashTable option \<Rightarrow> nat \<times> ('u, 'w) GHashTable option" where
  "melo_jsonrpc_register_methods load grp methods tbl =
     register_methods_loop load grp methods 0 tbl"

fun melo_jsonrpc_unregister_methods ::
  "string \<Rightarrow> ('u, 'w) MeloJSONRPCMethod list \<Rightarrow>
   ('u, 'w) GHashTable option \<Rightarrow> ('u, 'w) GHashTable option" where
  "melo_jsonrpc_unregister_methods grp [] tbl = tbl"
| "melo_jsonrpc_unregister_methods grp (e # es) tbl =
     melo_jsonrpc_unregister_methods grp es
       (melo_jsonrpc_unregister_method grp (mth_method e) tbl)"

section \<open>Responses and errors\<close>

text \<open>
  Modelled from the spec: the values of the enumeration \<open>MeloJSONRPCError\<close>, declared in
  \<open>melo_jsonrpc.h\<close>, which is not among the sources. The spec fixes them as the codes of
  JSON-RPC 2.0 and writes two of them out (-32700 Parse error, -32601 Method not found).
\<close>

datatype MeloJSONRPCError =
    MELO_JSONRPC_ERROR_PARSE_ERROR
  | MELO_JSONRPC_ERROR_INVALID_REQUEST
  | MELO_JSONRPC_ERROR_METHOD_NOT_FOUND
  | MELO_JSONRPC_ERROR_INVALID_PARAMS
  | MELO_JSONRPC_ERROR_INTERNAL_ERROR

fun error_code_value :: "MeloJSONRPCError \<Rightarrow> 64 word" where
  "error_code_value MELO_JSONRPC_ERROR_PARSE_ERROR = - 32700"
| "error_code_value MELO_JSONRPC_ERROR_INVALID_REQUEST = - 32600"
| "error_code_value MELO_JSONRPC_ERROR_METHOD_NOT_FOUND = - 32601"
| "error_code_value MELO_JSONRPC_ERROR_INVALID_PARAMS = - 32602"
| "error_code_value MELO_JSONRPC_ERROR_INTERNAL_ERROR = - 32603"

text \<open>
  \<open>melo_jsonrpc_build_error_nodev\<close>: every caller in the file passes a format without
  conversions, so the message is the format.
\<close>

definition melo_jsonrpc_build_error_node :: "MeloJSONRPCError \<Rightarrow> string \<Rightarrow> json" where
  "melo_jsonrpc_build_error_node error_code error_message =
     JObject (json_object_set_member
               (json_object_set_member [] ''code'' (JInt (error_code_value error_code)))
               ''message'' (JString error_message))"

text \<open>
  \<open>json_builder_add_string_value\<close> with a \<open>NULL\<close> string adds a null node.
\<close>

definition json_string_or_null :: "string option \<Rightarrow> json" where
  "json_string_or_null s = (case s of None \<Rightarrow> JNull | Some v \<Rightarrow> JString v)"

definition melo_jsonrpc_build_response_node ::
  "json option \<Rightarrow> json option \<Rightarrow> string option \<Rightarrow> 64 word \<Rightarrow> json" where
  "melo_jsonrpc_build_response_node result error sid nid =
     (let b0 = json_object_set_member [] ''jsonrpc'' (JString ''2.0'');
          b1 = (case error of
                  Some e \<Rightarrow> json_object_set_member b0 ''error'' e
                | None \<Rightarrow> (case result of
                     Some r \<Rightarrow> json_object_set_member b0 ''result'' r
                   | None \<Rightarrow> b0))
      in JObject (json_object_set_member b1 ''id''
           (if sint nid < 0 \<or> sid \<noteq> None then json_string_or_null sid else JInt nid)))"

definition melo_jsonrpc_build_error ::
  "string option \<Rightarrow> 64 word \<Rightarrow> MeloJSONRPCError \<Rightarrow> string \<Rightarrow> json" where
  "melo_jsonrpc_build_error sid nid error_code error_message =
     melo_jsonrpc_build_response_node None
       (Some (melo_jsonrpc_build_error_node error_code error_message)) sid nid"

definition melo_jsonrpc_build_error_str ::
  "(json \<Rightarrow> string) \<Rightarrow> MeloJSONRPCError \<Rightarrow> string \<Rightarrow> string" where
  "melo_jsonrpc_build_error_str to_string error_code error_message =
     to_string (melo_jsonrpc_build_response_node None
       (Some (melo_jsonrpc_build_error_node error_code error_message)) None (- 1))"

section \<open>Processing one request\<close>

text \<open>
  \<open>melo_jsonrpc_parse_node\<close>. The labels \<open>invalid\<close> and \<open>not_found\<close> are the two
  error responses; \<open>internal\<close> is reached only when an object node holds no object,
  which no parsed node does. The callback is looked up before the \<open>id\<close> member is
  examined. The result is the response node (\<open>NULL\<close> for none) and the world the
  callback leaves.
\<close>

definition melo_jsonrpc_parse_node ::
  "('u, 'w) GHashTable option \<Rightarrow> json \<Rightarrow> 'w \<Rightarrow> json option \<times> 'w" where
  "melo_jsonrpc_parse_node methods node w =
     (let invalid = melo_jsonrpc_build_error None (- 1)
                      MELO_JSONRPC_ERROR_INVALID_REQUEST ''Invalid request'' in
      case node of
        JObject obj \<Rightarrow>
          if \<not> json_object_has_member obj ''jsonrpc'' then (Some invalid, w)
          else (case json_object_get_string_member obj ''jsonrpc'' of
            None \<Rightarrow> (Some invalid, w)
          | Some version \<Rightarrow>
              if version \<noteq> ''2.0'' then (Some invalid, w)
              else if \<not> json_object_has_member obj ''method'' then (Some invalid, w)
              else (case json_object_get_string_member obj ''method'' of
                None \<Rightarrow> (Some invalid, w)
              | Some method \<Rightarrow>
                  (let params = json_object_get_member obj ''params'' in
                   if (case params of
                         None \<Rightarrow> False
                       | Some p \<Rightarrow> json_node_get_node_type p \<noteq> JSON_NODE_ARRAY \<and>
                                   json_node_get_node_type p \<noteq> JSON_NODE_OBJECT)
                   then (Some invalid, w)
                   else
                    (let m = (case methods of
                                None \<Rightarrow> None
                              | Some tbl \<Rightarrow> g_hash_table_lookup tbl method);
                         call = (case m of
                                   None \<Rightarrow> None
                                 | Some mm \<Rightarrow>
                                     (case m_callback mm of
                                        None \<Rightarrow> None
                                      | Some callback \<Rightarrow>
                                          Some (callback method (m_params mm) params
                                                  (m_user_data mm))))
                     in
                     if \<not> json_object_has_member obj ''id'' then
                       (case call of
                          None \<Rightarrow> (None, w)
                        | Some c \<Rightarrow> (None, snd (c w)))
                     else
                       (let nid = json_object_get_int_member obj ''id'';
                            sid = json_object_get_string_member obj ''id''
                        in case call of
                             None \<Rightarrow>
                               (Some (melo_jsonrpc_build_error sid nid
                                  MELO_JSONRPC_ERROR_METHOD_NOT_FOUND ''Method not found''), w)
                           | Some c \<Rightarrow>
                               (case c w of
                                  ((result, error), w') \<Rightarrow>
                                    if error = None \<and> result = None then
                                      (Some (melo_jsonrpc_build_error sid nid
                                         MELO_JSONRPC_ERROR_METHOD_NOT_FOUND
                                         ''Method not found''), w')
                                    else
                                      (Some (melo_jsonrpc_build_response_node
                                         result error sid nid), w')))))))
      | _ \<Rightarrow> (Some invalid, w))"

section \<open>The dispatcher\<close>

text \<open>
  The loop over the elements of a batch: each response that is not \<open>NULL\<close> is appended
  to the response array.
\<close>

fun parse_request_loop ::
  "('u, 'w) GHashTable option \<Rightarrow> json list \<Rightarrow> json list \<Rightarrow> 'w \<Rightarrow> json list \<times> 'w" where
  "parse_request_loop methods [] res_array w = (res_array, w)"
| "parse_request_loop methods (node # req_array) res_array w =
     (case melo_jsonrpc_parse_node methods node w of
        (None, w') \<Rightarrow> parse_request_loop methods req_array res_array w'
      | (Some res, w') \<Rightarrow> parse_request_loop methods req_array (res_array @ [res]) w')"

text \<open>
  \<open>melo_jsonrpc_parse_request\<close>, with the parser and the generator of json-glib as the
  parameters \<open>load\<close> and \<open>to_string\<close>. \<open>None\<close> is the \<open>NULL\<close> string: no response.
\<close>

definition melo_jsonrpc_parse_request ::
  "(string \<Rightarrow> json option option) \<Rightarrow> (json \<Rightarrow> string) \<Rightarrow>
   ('u, 'w) GHashTable option \<Rightarrow> string \<Rightarrow> 'w \<Rightarrow> string option \<times> 'w" where
  "melo_jsonrpc_parse_request load to_string methods request w =
     (case json_parser_load_from_data load (Some request) of
        None \<Rightarrow>
          (Some (melo_jsonrpc_build_error_str to_string
                   MELO_JSONRPC_ERROR_PARSE_ERROR ''Parse error''), w)
      | Some None \<Rightarrow>
          (Some (melo_jsonrpc_build_error_str to_string
                   MELO_JSONRPC_ERROR_PARSE_ERROR ''Parse error''), w)
      | Some (Some req) \<Rightarrow>
          (case req of
             JObject _ \<Rightarrow>
               (case melo_jsonrpc_parse_node methods req w of
                  (None, w') \<Rightarrow> (None, w')
                | (Some res, w') \<Rightarrow> (Some (to_string res), w'))
           | JArray req_array \<Rightarrow>
               if length req_array = 0 then
                 (Some (melo_jsonrpc_build_error_str to_string
                          MELO_JSONRPC_ERROR_INVALID_REQUEST ''Invalid request''), w)
               else
                 (case parse_request_loop methods req_array [] w of
                    (res_array, w') \<Rightarrow>
                      if length res_array = 0 then (None, w')
                      else (Some (to_string (JArray res_array)), w'))
           | _ \<Rightarrow>
               (Some (melo_jsonrpc_build_error_str to_string
                        MELO_JSONRPC_ERROR_INVALID_REQUEST ''Invalid request''), w)))"

section \<open>Checking and converting parameters\<close>

fun json_node_get_double :: "json \<Rightarrow> real" where
  "json_node_get_double (JDouble d) = d"
| "json_node_get_double (JInt n) = real_of_int (sint n)"
| "json_node_get_double (JBool b) = (if b then 1 else 0)"
| "json_node_get_double _ = 0"

text \<open>
  The tail shared by the six cases of \<open>melo_jsonrpc_add_node\<close>: the value goes into the
  object under the entry's name when there is an object, else to the end of the array
  when there is an array, else nowhere.
\<close>

definition add_to_object_or_array ::
  "(string \<times> json) list option \<Rightarrow> json list option \<Rightarrow> string \<Rightarrow> json \<Rightarrow>
   (string \<times> json) list option \<times> json list option" where
  "add_to_object_or_array obj array s_name v =
     (case obj of
        Some ob \<Rightarrow> (Some (json_object_set_member ob s_name v), array)
      | None \<Rightarrow> (case array of
                   Some a \<Rightarrow> (None, Some (a @ [v]))
                 | None \<Rightarrow> (None, None)))"

text \<open>
  \<open>melo_jsonrpc_add_node\<close>: \<open>None\<close> is \<open>FALSE\<close>, \<open>Some\<close> carries the object and the array
  after the addition. Only the first letter of the entry's type is read; an empty type
  string has the terminator there and takes the default case.
\<close>

definition melo_jsonrpc_add_node ::
  "json \<Rightarrow> (string \<times> json) list \<Rightarrow> (string \<times> json) list option \<Rightarrow> json list option \<Rightarrow>
   ((string \<times> json) list option \<times> json list option) option" where
  "melo_jsonrpc_add_node node schema obj array =
     (case json_object_get_string_member schema ''name'' of
        None \<Rightarrow> None
      | Some s_name \<Rightarrow>
         (case json_object_get_string_member schema ''type'' of
            None \<Rightarrow> None
          | Some s_type \<Rightarrow>
             (let type = json_node_get_node_type node;
                  vtype = (if type = JSON_NODE_VALUE then json_node_get_value_type node
                           else G_TYPE_INVALID)
              in case s_type of
                   [] \<Rightarrow> None
                 | c # _ \<Rightarrow>
                     if c = CHR ''b'' then
                       (if vtype \<noteq> G_TYPE_BOOLEAN then None
                        else Some (add_to_object_or_array obj array s_name
                                     (JBool (json_node_get_boolean node))))
                     else if c = CHR ''i'' then
                       (if vtype \<noteq> G_TYPE_INT64 then None
                        else Some (add_to_object_or_array obj array s_name
                                     (JInt (json_node_get_int node))))
                     else if c = CHR ''d'' then
                       (if vtype \<noteq> G_TYPE_DOUBLE then None
                        else Some (add_to_object_or_array obj array s_name
                                     (JDouble (json_node_get_double node))))
                     else if c = CHR ''s'' then
                       (if vtype \<noteq> G_TYPE_STRING then None
                        else Some (add_to_object_or_array obj array s_name
                                     (json_string_or_null (json_node_get_string node))))
                     else if c = CHR ''o'' then
                       (if type \<noteq> JSON_NODE_OBJECT then None
                        else Some (add_to_object_or_array obj array s_name node))
                     else if c = CHR ''a'' then
                       (if type \<noteq> JSON_NODE_ARRAY then None
                        else Some (add_to_object_or_array obj array s_name node))
                     else None)))"

text \<open>
  The two loops of \<open>melo_jsonrpc_get_json_node\<close>, over the remaining schema entries.
  The result holds \<open>TRUE\<close> for a \<open>return TRUE\<close> or the end of the loop and \<open>FALSE\<close> for
  \<open>goto failed\<close>, with the object and the array as filled so far. In the loop over an
  object, a missing member that is not required leaves \<open>node\<close> pointing at the
  \<open>required\<close> member of the schema entry; with neither an object nor an array to fill,
  control falls through to \<open>melo_jsonrpc_add_node\<close> with that node.
\<close>

fun get_json_node_object_loop ::
  "json list \<Rightarrow> (string \<times> json) list \<Rightarrow> (string \<times> json) list option \<Rightarrow> json list option \<Rightarrow>
   bool \<times> (string \<times> json) list option \<times> json list option" where
  "get_json_node_object_loop [] ob obj array = (True, obj, array)"
| "get_json_node_object_loop (e # es) ob obj array =
     (case json_array_get_object_element e of
        None \<Rightarrow> (False, obj, array)
      | Some schema \<Rightarrow>
         (case json_object_get_string_member schema ''name'' of
            None \<Rightarrow> (False, obj, array)
          | Some name \<Rightarrow>
             (case json_object_get_member ob name of
                Some node \<Rightarrow>
                  (case melo_jsonrpc_add_node node schema obj array of
                     None \<Rightarrow> (False, obj, array)
                   | Some (obj', array') \<Rightarrow> get_json_node_object_loop es ob obj' array')
              | None \<Rightarrow>
                  (case json_object_get_member schema ''required'' of
                     None \<Rightarrow> (False, obj, array)
                   | Some node \<Rightarrow>
                       if json_node_get_boolean node then (False, obj, array)
                       else if obj \<noteq> None then get_json_node_object_loop es ob obj array
                       else if array \<noteq> None then (True, obj, array)
                       else
                         (case melo_jsonrpc_add_node node schema obj array of
                            None \<Rightarrow> (False, obj, array)
                          | Some (obj', array') \<Rightarrow>
                              get_json_node_object_loop es ob obj' array')))))"

text \<open>
  The loop over an array walks the schema and the parameters by the same index \<open>i\<close>;
  \<open>i >= params_count\<close> is the parameter list being used up.
\<close>

fun get_json_node_array_loop ::
  "json list \<Rightarrow> json list \<Rightarrow> (string \<times> json) list option \<Rightarrow> json list option \<Rightarrow>
   bool \<times> (string \<times> json) list option \<times> json list option" where
  "get_json_node_array_loop [] a obj array = (True, obj, array)"
| "get_json_node_array_loop (e # es) a obj array =
     (case json_array_get_object_element e of
        None \<Rightarrow> (False, obj, array)
      | Some schema \<Rightarrow>
         (case a of
            [] \<Rightarrow>
              (case json_object_get_member schema ''required'' of
                 None \<Rightarrow> (False, obj, array)
               | Some node \<Rightarrow>
                   if json_node_get_boolean node then (False, obj, array)
                   else (True, obj, array))
          | node # a' \<Rightarrow>
              (case melo_jsonrpc_add_node node schema obj array of
                 None \<Rightarrow> (False, obj, array)
               | Some (obj', array') \<Rightarrow> get_json_node_array_loop es a' obj' array')))"

text \<open>
  The error slot \<open>JsonNode **error\<close>: \<open>None\<close> is a \<open>NULL\<close> pointer, \<open>Some None\<close> an empty
  slot, \<open>Some (Some e)\<close> a slot that already holds an error. Only an empty slot is filled.
\<close>

definition set_error :: "json option option \<Rightarrow> MeloJSONRPCError \<Rightarrow> string \<Rightarrow> json option option" where
  "set_error error error_code error_message =
     (case error of
        Some None \<Rightarrow> Some (Some (melo_jsonrpc_build_error_node error_code error_message))
      | _ \<Rightarrow> error)"

definition melo_jsonrpc_get_json_node ::
  "json list option \<Rightarrow> json option \<Rightarrow> (string \<times> json) list option \<Rightarrow> json list option \<Rightarrow>
   json option option \<Rightarrow>
   bool \<times> (string \<times> json) list option \<times> json list option \<times> json option option" where
  "melo_jsonrpc_get_json_node schema_params params obj array error =
     (case schema_params of
        None \<Rightarrow> (False, obj, array, error)
      | Some sp \<Rightarrow>
         (case params of
            None \<Rightarrow>
              (False, obj, array,
               set_error error MELO_JSONRPC_ERROR_INVALID_REQUEST ''Invalid request'')
          | Some p \<Rightarrow>
             (case (case p of
                      JObject ob \<Rightarrow> get_json_node_object_loop sp ob obj array
                    | JArray a \<Rightarrow> get_json_node_array_loop sp a obj array
                    | _ \<Rightarrow> (True, obj, array)) of
                (True, obj', array') \<Rightarrow> (True, obj', array', error)
              | (False, obj', array') \<Rightarrow>
                  (False, obj', array',
                   set_error error MELO_JSONRPC_ERROR_INVALID_PARAMS ''Invalid params''))))"

definition melo_jsonrpc_check_params ::
  "json list option \<Rightarrow> json option \<Rightarrow> json option option \<Rightarrow> bool \<times> json option option" where
  "melo_jsonrpc_check_params schema_params params error =
     (case melo_jsonrpc_get_json_node schema_params params None None error of
        (ret, _, _, error') \<Rightarrow> (ret, error'))"

text \<open>
  \<open>melo_jsonrpc_get_object\<close> and \<open>melo_jsonrpc_get_array\<close> allocate an empty object or
  array, release it when the walk fails and answer \<open>NULL\<close> then.
\<close>

definition melo_jsonrpc_get_object ::
  "json list option \<Rightarrow> json option \<Rightarrow> json option option \<Rightarrow>
   (string \<times> json) list option \<times> json option option" where
  "melo_jsonrpc_get_object schema_params params error =
     (case melo_jsonrpc_get_json_node schema_params params (Some []) None error of
        (ret, obj, _, error') \<Rightarrow> (if \<not> ret then None else obj, error'))"

definition melo_jsonrpc_get_array ::
  "json list option \<Rightarrow> json option \<Rightarrow> json option option \<Rightarrow>
   json list option \<times> json option option" where
  "melo_jsonrpc_get_array schema_params params error =
     (case melo_jsonrpc_get_json_node schema_params params None (Some []) error of
        (ret, _, array, error') \<Rightarrow> (if \<not> ret then None else array, error'))"

section \<open>Notions used to state the properties\<close>

text \<open>The \<open>id\<close> member of a response node.\<close>

definition response_id :: "json option \<Rightarrow> json option" where
  "response_id res =
     (case res of Some (JObject resp) \<Rightarrow> json_object_get_member resp ''id'' | _ \<Rightarrow> None)"

text \<open>
  A request object with a well-formed envelope, in the words of the data model: the
  protocol version is the string 2.0, the method is a string, the parameters are absent
  or an array or an object.
\<close>

definition valid_request :: "(string \<times> json) list \<Rightarrow> bool" where
  "valid_request obj =
     (map_of obj ''jsonrpc'' = Some (JString ''2.0'') \<and>
      (case map_of obj ''method'' of Some (JString _) \<Rightarrow> True | _ \<Rightarrow> False) \<and>
      (case map_of obj ''params'' of
         None \<Rightarrow> True | Some (JArray _) \<Rightarrow> True | Some (JObject _) \<Rightarrow> True | _ \<Rightarrow> False))"

text \<open>The call that a request for \<open>method\<close> makes: the registered callback on its arguments.\<close>

definition registered_call ::
  "('u, 'w) GHashTable option \<Rightarrow> string \<Rightarrow> json option \<Rightarrow>
   ('w \<Rightarrow> (json option \<times> json option) \<times> 'w) option" where
  "registered_call methods method params =
     (case methods of
        None \<Rightarrow> None
      | Some tbl \<Rightarrow>
         (case g_hash_table_lookup tbl method of
            None \<Rightarrow> None
          | Some mm \<Rightarrow>
             (case m_callback mm of
                None \<Rightarrow> None
              | Some callback \<Rightarrow> Some (callback method (m_params mm) params (m_user_data mm)))))"


text \<open>The states of the table that registering and unregistering reach from \<open>NULL\<close>.\<close>

inductive reachable :: "('u, 'w) GHashTable option \<Rightarrow> bool" where
  initial: "reachable None"
| register: "reachable methods \<Longrightarrow>
     reachable (snd (melo_jsonrpc_register_method grp method params result callback user_data methods))"
| unregister: "reachable methods \<Longrightarrow>
     reachable (melo_jsonrpc_unregister_method grp method methods)"

text \<open>No two entries of the table have the same qualified name.\<close>

definition distinct_names :: "('u, 'w) GHashTable option \<Rightarrow> bool" where
  "distinct_names methods =
     (case methods of None \<Rightarrow> True | Some tbl \<Rightarrow> distinct (map fst tbl))"

text \<open>
  The schema that an entry of a bulk registration gets from a schema string: \<open>Some None\<close>
  is the absent schema of a string that does not load, \<open>None\<close> a loaded root of the
  wrong type, for which the entry is passed over.
\<close>

definition params_schema ::
  "(string \<Rightarrow> json option option) \<Rightarrow> ('u, 'w) MeloJSONRPCMethod \<Rightarrow> json list option option" where
  "params_schema load e =
     (case json_parser_load_from_data load (mth_params e) of
        None \<Rightarrow> Some None
      | Some (Some (JArray a)) \<Rightarrow> Some (Some a)
      | _ \<Rightarrow> None)"

definition result_schema ::
  "(string \<Rightarrow> json option option) \<Rightarrow> ('u, 'w) MeloJSONRPCMethod \<Rightarrow>
   (string \<times> json) list option option" where
  "result_schema load e =
     (case json_parser_load_from_data load (mth_result e) of
        None \<Rightarrow> Some None
      | Some (Some (JObject ob)) \<Rightarrow> Some (Some ob)
      | _ \<Rightarrow> None)"

definition passed_over :: "(string \<Rightarrow> json option option) \<Rightarrow> ('u, 'w) MeloJSONRPCMethod \<Rightarrow> bool" where
  "passed_over load e = (params_schema load e = None \<or> result_schema load e = None)"

text \<open>
  The six parameter types of a schema. The declared type of an entry is read off the
  first letter of its type string; the wire type of a node is its JSON type, a null
  having none.
\<close>

datatype param_type = PBoolean | PInteger | PDouble | PString | PObject | PArray

fun declared_type :: "string \<Rightarrow> param_type option" where
  "declared_type [] = None"
| "declared_type (c # _) =
     (if c = CHR ''b'' then Some PBoolean
      else if c = CHR ''i'' then Some PInteger
      else if c = CHR ''d'' then Some PDouble
      else if c = CHR ''s'' then Some PString
      else if c = CHR ''o'' then Some PObject
      else if c = CHR ''a'' then Some PArray
      else None)"

fun wire_type :: "json \<Rightarrow> param_type option" where
  "wire_type JNull = None"
| "wire_type (JBool _) = Some PBoolean"
| "wire_type (JInt _) = Some PInteger"
| "wire_type (JDouble _) = Some PDouble"
| "wire_type (JString _) = Some PString"
| "wire_type (JObject _) = Some PObject"
| "wire_type (JArray _) = Some PArray"

definition entry_name :: "json \<Rightarrow> string option" where
  "entry_name e =
     (case e of JObject schema \<Rightarrow> json_object_get_string_member schema ''name'' | _ \<Rightarrow> None)"

definition entry_type :: "json \<Rightarrow> param_type option" where
  "entry_type e =
     (case e of
        JObject schema \<Rightarrow>
          (case json_object_get_string_member schema ''type'' of
             None \<Rightarrow> None
           | Some s_type \<Rightarrow> declared_type s_type)
      | _ \<Rightarrow> None)"

text \<open>An entry accepts a value when it has a name and its declared type is the value's wire type.\<close>

definition entry_accepts :: "json \<Rightarrow> json \<Rightarrow> bool" where
  "entry_accepts e v =
     (entry_name e \<noteq> None \<and> entry_type e \<noteq> None \<and> entry_type e = wire_type v)"

text \<open>
  The wire value present for the entry at index \<open>i\<close> of a schema: the element at
  position \<open>i\<close> of a positional sequence, the member with the entry's name of a keyed
  mapping.
\<close>

definition value_at :: "json list \<Rightarrow> json \<Rightarrow> nat \<Rightarrow> json option" where
  "value_at sp p i =
     (case p of
        JArray a \<Rightarrow> (if i < length a then Some (a ! i) else None)
      | JObject ob \<Rightarrow>
          (if i < length sp then
             (case entry_name (sp ! i) of None \<Rightarrow> None | Some name \<Rightarrow> map_of ob name)
           else None)
      | _ \<Rightarrow> None)"

definition present_in :: "(string \<times> json) list \<Rightarrow> json \<Rightarrow> bool" where
  "present_in ob e = (case entry_name e of None \<Rightarrow> False | Some n \<Rightarrow> map_of ob n \<noteq> None)"

text \<open>
  An entry whose \<open>required\<close> member is there and does not read as true, and the values a
  keyed mapping holds under the names of a list of entries, in the order of the entries.
\<close>

definition optional_entry :: "json \<Rightarrow> bool" where
  "optional_entry e =
     (case e of
        JObject schema \<Rightarrow>
          (case json_object_get_member schema ''required'' of
             None \<Rightarrow> False
           | Some node \<Rightarrow> \<not> json_node_get_boolean node)
      | _ \<Rightarrow> False)"

definition keyed_values :: "(string \<times> json) list \<Rightarrow> json list \<Rightarrow> json list" where
  "keyed_values ob es =
     List.map_filter (\<lambda>e. case entry_name e of None \<Rightarrow> None | Some name \<Rightarrow> map_of ob name) es"

definition invalid_params_error :: json where
  "invalid_params_error =
     melo_jsonrpc_build_error_node MELO_JSONRPC_ERROR_INVALID_PARAMS ''Invalid params''"

definition invalid_request_error :: json where
  "invalid_request_error =
     melo_jsonrpc_build_error_node MELO_JSONRPC_ERROR_INVALID_REQUEST ''Invalid request''"

definition registry_lookup ::
  "('u, 'w) GHashTable option \<Rightarrow> string \<Rightarrow> ('u, 'w) MeloJSONRPCInternalMethod option" where
  "registry_lookup methods name =
     (case methods of None \<Rightarrow> None | Some tbl \<Rightarrow> g_hash_table_lookup tbl name)"

text \<open>
  Concrete inputs for the examples: a callback that answers the method's name as its
  result, a table with that callback registered as \<open>foo.bar\<close>, a parser that answers a
  given root for every text, and a generator that prints only the kind of the root.
\<close>

definition name_callback :: "(unit, unit) MeloJSONRPCCallback" where
  "name_callback method s_params params user_data w = ((Some (JString method), None), w)"

definition foo_bar_methods :: "(unit, unit) GHashTable option" where
  "foo_bar_methods =
     Some [(''foo.bar'', \<lparr>m_params = None, m_result = None,
                           m_callback = Some name_callback, m_user_data = ()\<rparr>)]"

definition load_root :: "json \<Rightarrow> string \<Rightarrow> json option option" where
  "load_root r s = Some (Some r)"

fun kind_text :: "json \<Rightarrow> string" where
  "kind_text (JArray _) = ''array''"
| "kind_text (JObject _) = ''object''"
| "kind_text _ = ''value''"

text \<open>
  A parser that knows three texts, and the entries of a bulk registration built on
  \<open>name_callback\<close>.
\<close>

definition shape_load :: "string \<Rightarrow> json option option" where
  "shape_load s =
     (if s = ''[]'' then Some (Some (JArray []))
      else if s = ''{}'' then Some (Some (JObject []))
      else None)"

definition bulk_entry :: "string \<Rightarrow> string option \<Rightarrow> string option \<Rightarrow> (unit, unit) MeloJSONRPCMethod" where
  "bulk_entry name ps rs =
     \<lparr>mth_method = name, mth_params = ps, mth_result = rs,
      mth_callback = Some name_callback, mth_user_data = ()\<rparr>"

section \<open>Parameters that are absent, or neither an object nor an array\<close>

text \<open>
  Claim C10. For a schema that is not \<open>NULL\<close> and parameters that are present but are
  neither an object nor an array, the walk succeeds without looking at any schema entry:
  the check answers \<open>TRUE\<close>, the conversions answer the empty object and the empty array,
  and the error slot is left as it was.
\<close>

theorem C10_scalar_params_accepted:
  assumes "json_node_get_node_type p \<noteq> JSON_NODE_OBJECT"
    and "json_node_get_node_type p \<noteq> JSON_NODE_ARRAY"
  shows "melo_jsonrpc_check_params (Some sp) (Some p) error = (True, error) \<and>
         melo_jsonrpc_get_object (Some sp) (Some p) error = (Some [], error) \<and>
         melo_jsonrpc_get_array (Some sp) (Some p) error = (Some [], error)"
  using assms
  by (cases p)
     (simp_all add: melo_jsonrpc_check_params_def melo_jsonrpc_get_object_def
        melo_jsonrpc_get_array_def melo_jsonrpc_get_json_node_def)

text \<open>
  A string as parameters, against a schema whose only entry is not even an object: a walk
  over that entry would fail.
\<close>

theorem C10_scalar_params_accepted_witness:
  "json_node_get_node_type (JString ''x'') \<noteq> JSON_NODE_OBJECT \<and>
   json_node_get_node_type (JString ''x'') \<noteq> JSON_NODE_ARRAY \<and>
   melo_jsonrpc_check_params (Some [JNull]) (Some (JString ''x'')) (Some None) = (True, Some None) \<and>
   melo_jsonrpc_get_object (Some [JNull]) (Some (JString ''x'')) (Some None) = (Some [], Some None) \<and>
   melo_jsonrpc_get_array (Some [JNull]) (Some (JString ''x'')) (Some None) = (Some [], Some None)"
  using C10_scalar_params_accepted [of "JString ''x''" "[JNull]" "Some None"] by simp

text \<open>
  Claim C7, as stated, lets the operations succeed on absent parameters when the schema
  has no required entry. With a schema of one optional entry and no parameters, all
  three fail.
\<close>

theorem C7_optional_schema_counterexample:
  "\<not> fst (melo_jsonrpc_check_params
            (Some [JObject [(''name'', JString ''a''), (''type'', JString ''int''),
                            (''required'', JBool False)]]) None (Some None)) \<and>
   fst (melo_jsonrpc_get_object
            (Some [JObject [(''name'', JString ''a''), (''type'', JString ''int''),
                            (''required'', JBool False)]]) None (Some None)) = None \<and>
   fst (melo_jsonrpc_get_array
            (Some [JObject [(''name'', JString ''a''), (''type'', JString ''int''),
                            (''required'', JBool False)]]) None (Some None)) = None"
  by (simp add: melo_jsonrpc_check_params_def melo_jsonrpc_get_object_def
        melo_jsonrpc_get_array_def melo_jsonrpc_get_json_node_def)

text \<open>
  Claim C7, amended. For every schema that is not \<open>NULL\<close>, whatever its entries and
  whether or not any of them is required, absent parameters make the check and both
  conversions fail, and an empty error slot receives Invalid Request, which is not the
  Invalid Params error.
\<close>

theorem C7_absent_params_invalid_request:
  "melo_jsonrpc_check_params (Some sp) None (Some None) =
     (False, Some (Some invalid_request_error)) \<and>
   melo_jsonrpc_get_object (Some sp) None (Some None) =
     (None, Some (Some invalid_request_error)) \<and>
   melo_jsonrpc_get_array (Some sp) None (Some None) =
     (None, Some (Some invalid_request_error)) \<and>
   invalid_request_error \<noteq> invalid_params_error"
  by (simp add: melo_jsonrpc_check_params_def melo_jsonrpc_get_object_def
        melo_jsonrpc_get_array_def melo_jsonrpc_get_json_node_def set_error_def
        invalid_request_error_def invalid_params_error_def melo_jsonrpc_build_error_node_def)

theorem C7_absent_params_invalid_request_witness:
  "melo_jsonrpc_check_params
     (Some [JObject [(''name'', JString ''a''), (''type'', JString ''int'')]]) None (Some None) =
     (False, Some (Some invalid_request_error)) \<and>
   melo_jsonrpc_get_object (Some []) None (Some None) =
     (None, Some (Some invalid_request_error))"
  using C7_absent_params_invalid_request
          [of "[JObject [(''name'', JString ''a''), (''type'', JString ''int'')]]"]
        C7_absent_params_invalid_request [of "[]"]
  by simp

text \<open>
  Claim C6 at a schema of one optional integer entry and an empty keyed mapping. Both
  conversions accept the absent value, and so does the check of an empty positional
  sequence; the check of the keyed mapping hands the entry's own \<open>required\<close> flag to
  \<open>melo_jsonrpc_add_node\<close> as if it were the value, and fails with Invalid Params.
\<close>

theorem C6_check_keyed_absent_optional:
  "melo_jsonrpc_check_params
     (Some [JObject [(''name'', JString ''a''), (''type'', JString ''int''),
                     (''required'', JBool False)]]) (Some (JObject [])) (Some None) =
     (False, Some (Some invalid_params_error)) \<and>
   melo_jsonrpc_get_object
     (Some [JObject [(''name'', JString ''a''), (''type'', JString ''int''),
                     (''required'', JBool False)]]) (Some (JObject [])) (Some None) =
     (Some [], Some None) \<and>
   melo_jsonrpc_get_array
     (Some [JObject [(''name'', JString ''a''), (''type'', JString ''int''),
                     (''required'', JBool False)]]) (Some (JObject [])) (Some None) =
     (Some [], Some None) \<and>
   melo_jsonrpc_check_params
     (Some [JObject [(''name'', JString ''a''), (''type'', JString ''int''),
                     (''required'', JBool False)]]) (Some (JArray [])) (Some None) =
     (True, Some None)"
  by (simp add: melo_jsonrpc_check_params_def melo_jsonrpc_get_object_def
        melo_jsonrpc_get_array_def melo_jsonrpc_get_json_node_def
        json_object_get_string_member_def json_object_get_member_def
        melo_jsonrpc_add_node_def set_error_def invalid_params_error_def)

section \<open>The \<open>id\<close> of a response, and notifications\<close>

lemma map_of_set_member_same: "map_of (json_object_set_member obj name v) name = Some v"
  by (induction obj name v rule: json_object_set_member.induct) auto

lemma response_id_build_response_node:
  "response_id (Some (melo_jsonrpc_build_response_node result error sid nid)) =
     Some (if sint nid < 0 \<or> sid \<noteq> None then json_string_or_null sid else JInt nid)"
  by (simp add: response_id_def melo_jsonrpc_build_response_node_def Let_def
      json_object_get_member_def map_of_set_member_same)

lemma response_id_build_error:
  "response_id (Some (melo_jsonrpc_build_error sid nid code msg)) =
     Some (if sint nid < 0 \<or> sid \<noteq> None then json_string_or_null sid else JInt nid)"
  by (simp add: melo_jsonrpc_build_error_def response_id_build_response_node)

lemma params_shape:
  assumes "valid_request obj"
  shows "(case map_of obj ''params'' of
            None \<Rightarrow> False
          | Some p \<Rightarrow> json_node_get_node_type p \<noteq> JSON_NODE_ARRAY \<and>
                      json_node_get_node_type p \<noteq> JSON_NODE_OBJECT) = False"
  using assms by (auto simp: valid_request_def split: option.splits json.splits)

text \<open>What \<open>melo_jsonrpc_parse_node\<close> does with a request whose envelope is well formed.\<close>

lemma parse_node_valid:
  assumes "valid_request obj" and "map_of obj ''method'' = Some (JString method)"
  shows "melo_jsonrpc_parse_node methods (JObject obj) w =
    (case registered_call methods method (map_of obj ''params'') of
       None \<Rightarrow>
         (if map_of obj ''id'' = None then None
          else Some (melo_jsonrpc_build_error (json_object_get_string_member obj ''id'')
                       (json_object_get_int_member obj ''id'')
                       MELO_JSONRPC_ERROR_METHOD_NOT_FOUND ''Method not found''), w)
     | Some c \<Rightarrow>
         (if map_of obj ''id'' = None then None
          else if snd (fst (c w)) = None \<and> fst (fst (c w)) = None then
            Some (melo_jsonrpc_build_error (json_object_get_string_member obj ''id'')
                       (json_object_get_int_member obj ''id'')
                       MELO_JSONRPC_ERROR_METHOD_NOT_FOUND ''Method not found'')
          else Some (melo_jsonrpc_build_response_node (fst (fst (c w))) (snd (fst (c w)))
                       (json_object_get_string_member obj ''id'')
                       (json_object_get_int_member obj ''id'')), snd (c w)))"
proof -
  have v: "map_of obj ''jsonrpc'' = Some (JString ''2.0'')"
    using assms(1) by (simp add: valid_request_def)
  note ps = params_shape [OF assms(1)]
  show ?thesis
    unfolding melo_jsonrpc_parse_node_def registered_call_def
    by (simp add: Let_def json_object_has_member_def json_object_get_string_member_def
        json_object_get_member_def v assms(2) ps
        split: option.splits prod.splits)
qed

text \<open>
  Claim C1, as stated, has every integer \<open>id\<close> echoed, the negative ones included. The
  request \<open>{"jsonrpc":"2.0","method":"foo.bar","id":-1}\<close>, answered by a registered
  callback, gets a response whose \<open>id\<close> is null.
\<close>

theorem C1_negative_id_counterexample:
  "response_id (fst (melo_jsonrpc_parse_node foo_bar_methods
     (JObject [(''jsonrpc'', JString ''2.0''), (''method'', JString ''foo.bar''),
               (''id'', JInt (- 1))]) ())) = Some JNull \<and>
   response_id (fst (melo_jsonrpc_parse_node foo_bar_methods
     (JObject [(''jsonrpc'', JString ''2.0''), (''method'', JString ''foo.bar''),
               (''id'', JInt (- 1))]) ())) \<noteq> Some (JInt (- 1))"
  by (simp add: melo_jsonrpc_parse_node_def json_object_has_member_def
      json_object_get_string_member_def json_object_get_member_def
      json_object_get_int_member_def g_hash_table_lookup_def name_callback_def
      foo_bar_methods_def response_id_build_response_node json_string_or_null_def)

text \<open>
  Claim C1, amended. For every request with a well-formed envelope and an \<open>id\<close>, whatever
  the table holds and whatever the callback answers: a string \<open>id\<close> is echoed as the same
  string, an integer \<open>id\<close> that is not negative as the same integer, and a negative
  integer \<open>id\<close> as null (the response builder takes a negative number for "no numeric
  id"). The response to a request with a string \<open>id\<close> never has the \<open>id\<close> of a response to
  a request with an integer \<open>id\<close>.
\<close>

theorem C1_id_echo:
  assumes "valid_request obj"
  shows "(map_of obj ''id'' = Some (JString s) \<longrightarrow>
            response_id (fst (melo_jsonrpc_parse_node methods (JObject obj) w)) = Some (JString s)) \<and>
         (map_of obj ''id'' = Some (JInt n) \<and> 0 \<le> sint n \<longrightarrow>
            response_id (fst (melo_jsonrpc_parse_node methods (JObject obj) w)) = Some (JInt n)) \<and>
         (map_of obj ''id'' = Some (JInt n) \<and> sint n < 0 \<longrightarrow>
            response_id (fst (melo_jsonrpc_parse_node methods (JObject obj) w)) = Some JNull) \<and>
         (valid_request obj' \<and> map_of obj ''id'' = Some (JString s) \<and>
          map_of obj' ''id'' = Some (JInt n') \<longrightarrow>
            response_id (fst (melo_jsonrpc_parse_node methods' (JObject obj') w')) \<noteq>
            response_id (fst (melo_jsonrpc_parse_node methods (JObject obj) w)))"
proof -
  have echo: "response_id (fst (melo_jsonrpc_parse_node ms (JObject ob) v)) =
      Some (if sint (json_node_get_int idv) < 0 \<or> json_node_get_string idv \<noteq> None
            then json_string_or_null (json_node_get_string idv)
            else JInt (json_node_get_int idv))"
    if "valid_request ob" and "map_of ob ''id'' = Some idv" for ms ob v idv
  proof -
    from that(1) obtain mname where m: "map_of ob ''method'' = Some (JString mname)"
      by (auto simp: valid_request_def split: option.splits json.splits)
    show ?thesis
      by (simp add: parse_node_valid [OF that(1) m] that(2) response_id_build_error
          response_id_build_response_node json_object_get_string_member_def
          json_object_get_int_member_def split: option.splits)
  qed
  show ?thesis
    using assms by (auto simp: echo json_string_or_null_def)
qed

theorem C1_id_echo_witness:
  "valid_request [(''jsonrpc'', JString ''2.0''), (''method'', JString ''foo.bar''),
                  (''id'', JInt 0)] \<and>
   response_id (fst (melo_jsonrpc_parse_node foo_bar_methods
     (JObject [(''jsonrpc'', JString ''2.0''), (''method'', JString ''foo.bar''),
               (''id'', JInt 0)]) ())) = Some (JInt 0) \<and>
   valid_request [(''jsonrpc'', JString ''2.0''), (''method'', JString ''no.such''),
                  (''id'', JString ''0'')] \<and>
   response_id (fst (melo_jsonrpc_parse_node foo_bar_methods
     (JObject [(''jsonrpc'', JString ''2.0''), (''method'', JString ''no.such''),
               (''id'', JString ''0'')]) ())) = Some (JString ''0'')"
proof -
  have v1: "valid_request [(''jsonrpc'', JString ''2.0''), (''method'', JString ''foo.bar''),
                           (''id'', JInt 0)]"
    by (simp add: valid_request_def)
  have v2: "valid_request [(''jsonrpc'', JString ''2.0''), (''method'', JString ''no.such''),
                           (''id'', JString ''0'')]"
    by (simp add: valid_request_def)
  have a: "response_id (fst (melo_jsonrpc_parse_node foo_bar_methods
     (JObject [(''jsonrpc'', JString ''2.0''), (''method'', JString ''foo.bar''),
               (''id'', JInt 0)]) ())) = Some (JInt 0)"
    using C1_id_echo [where n = 0 and methods = foo_bar_methods and w = "()", OF v1,
                      THEN conjunct2, THEN conjunct1]
    by simp
  have b: "response_id (fst (melo_jsonrpc_parse_node foo_bar_methods
     (JObject [(''jsonrpc'', JString ''2.0''), (''method'', JString ''no.such''),
               (''id'', JString ''0'')]) ())) = Some (JString ''0'')"
    using C1_id_echo [where s = "''0''" and methods = foo_bar_methods and w = "()", OF v2,
                      THEN conjunct1]
    by simp
  show ?thesis
    using v1 v2 a b by simp
qed

text \<open>
  Claim C2, as stated, covers every request object without an \<open>id\<close>. The object
  \<open>{"jsonrpc":"2.0","method":"foo.bar","params":5}\<close> has none, and the envelope is
  checked before the \<open>id\<close> is looked for: it is answered with Invalid Request.
\<close>

theorem C2_malformed_notification_counterexample:
  "\<not> json_object_has_member
       [(''jsonrpc'', JString ''2.0''), (''method'', JString ''foo.bar''), (''params'', JInt 5)]
       ''id'' \<and>
   fst (melo_jsonrpc_parse_node foo_bar_methods
     (JObject [(''jsonrpc'', JString ''2.0''), (''method'', JString ''foo.bar''),
               (''params'', JInt 5)]) ()) =
     Some (melo_jsonrpc_build_error None (- 1)
             MELO_JSONRPC_ERROR_INVALID_REQUEST ''Invalid request'')"
  by (simp add: melo_jsonrpc_parse_node_def json_object_has_member_def
      json_object_get_string_member_def json_object_get_member_def)

text \<open>
  Claim C2, amended. For every request object with a well-formed envelope and no \<open>id\<close>
  member, there is no response: when a callback is registered for the method it is
  called (the world is the one it leaves) and what it answers is dropped; when none is
  registered nothing happens. The dispatcher then has no output for that request.
\<close>

theorem C2_notification_no_response:
  assumes "valid_request obj" and "map_of obj ''method'' = Some (JString mname)"
    and "\<not> json_object_has_member obj ''id''"
  shows "fst (melo_jsonrpc_parse_node methods (JObject obj) w) = None \<and>
         snd (melo_jsonrpc_parse_node methods (JObject obj) w) =
           (case registered_call methods mname (json_object_get_member obj ''params'') of
              None \<Rightarrow> w | Some c \<Rightarrow> snd (c w)) \<and>
         (load request = Some (Some (JObject obj)) \<longrightarrow>
            fst (melo_jsonrpc_parse_request load to_string methods request w) = None)"
proof -
  have i: "map_of obj ''id'' = None"
    using assms(3) by (simp add: json_object_has_member_def)
  have n: "melo_jsonrpc_parse_node methods (JObject obj) w =
      (None, case registered_call methods mname (json_object_get_member obj ''params'') of
              None \<Rightarrow> w | Some c \<Rightarrow> snd (c w))"
    by (simp add: parse_node_valid [OF assms(1,2)] i json_object_get_member_def
        split: option.splits)
  show ?thesis
    by (simp add: n melo_jsonrpc_parse_request_def json_parser_load_from_data_def)
qed

theorem C2_notification_no_response_witness:
  "valid_request [(''jsonrpc'', JString ''2.0''), (''method'', JString ''foo.bar'')] \<and>
   \<not> json_object_has_member
       [(''jsonrpc'', JString ''2.0''), (''method'', JString ''foo.bar'')] ''id'' \<and>
   fst (melo_jsonrpc_parse_node foo_bar_methods
     (JObject [(''jsonrpc'', JString ''2.0''), (''method'', JString ''foo.bar'')]) ()) = None \<and>
   fst (melo_jsonrpc_parse_request
          (load_root (JObject [(''jsonrpc'', JString ''2.0''), (''method'', JString ''foo.bar'')]))
          kind_text foo_bar_methods ''{}'' ()) = None"
  using C2_notification_no_response
    [where obj = "[(''jsonrpc'', JString ''2.0''), (''method'', JString ''foo.bar'')]"
       and mname = "''foo.bar''" and methods = foo_bar_methods and w = "()"
       and load = "load_root (JObject [(''jsonrpc'', JString ''2.0''),
                                       (''method'', JString ''foo.bar'')])"
       and request = "''{}''" and to_string = kind_text]
  by (simp add: valid_request_def json_object_has_member_def load_root_def)

section \<open>Batches\<close>



lemma build_error_str_envelope:
  "melo_jsonrpc_build_error_str to_string error_code error_message =
     to_string (JObject [(''jsonrpc'', JString ''2.0''),
                         (''error'', JObject [(''code'', JInt (error_code_value error_code)),
                                              (''message'', JString error_message)]),
                         (''id'', JNull)])"
  by (simp add: melo_jsonrpc_build_error_str_def melo_jsonrpc_build_response_node_def
      melo_jsonrpc_build_error_node_def json_string_or_null_def)



section \<open>The registry\<close>

lemma map_of_insert: "map_of (g_hash_table_insert tbl key v) = (map_of tbl)(key \<mapsto> v)"
  by (induction tbl key v rule: g_hash_table_insert.induct) auto

lemma keys_insert: "set (map fst (g_hash_table_insert tbl key v)) = insert key (set (map fst tbl))"
  by (induction tbl key v rule: g_hash_table_insert.induct) auto

lemma distinct_insert:
  "distinct (map fst tbl) \<Longrightarrow> distinct (map fst (g_hash_table_insert tbl key v))"
proof (induction tbl key v rule: g_hash_table_insert.induct)
  case (1 key v)
  show ?case by simp
next
  case (2 k w tbl key v)
  then show ?case
    using keys_insert [of tbl key v] by auto
qed

lemma length_insert_new:
  "map_of tbl key = None \<Longrightarrow> length (g_hash_table_insert tbl key v) = Suc (length tbl)"
  by (induction tbl key v rule: g_hash_table_insert.induct) (auto split: if_splits)

lemma insert_not_Nil: "g_hash_table_insert tbl key v \<noteq> []"
  by (cases tbl) (auto split: if_splits)

lemma map_of_remove:
  "map_of (filter (\<lambda>kv. fst kv \<noteq> key) tbl) = (map_of tbl)(key := None)"
  by (induction tbl) auto

lemma filter_absent: "map_of tbl key = None \<Longrightarrow> filter (\<lambda>kv. fst kv \<noteq> key) tbl = tbl"
  by (induction tbl) (auto split: if_splits)

lemma map_of_filter_empty:
  "filter (\<lambda>kv. fst kv \<noteq> key) tbl = [] \<Longrightarrow> name \<noteq> key \<Longrightarrow> map_of tbl name = None"
  by (induction tbl) (auto split: if_splits)

lemma register_inv:
  assumes "methods \<noteq> Some [] \<and> distinct_names methods"
  shows "snd (melo_jsonrpc_register_method grp method params result callback user_data methods)
           \<noteq> Some [] \<and>
         distinct_names
           (snd (melo_jsonrpc_register_method grp method params result callback user_data methods))"
proof (cases methods)
  case None
  then show ?thesis
    by (simp add: melo_jsonrpc_register_method_def g_hash_table_lookup_def distinct_names_def)
next
  case (Some tbl)
  with assms show ?thesis
    by (simp add: melo_jsonrpc_register_method_def g_hash_table_lookup_def distinct_names_def
        distinct_insert insert_not_Nil)
qed

lemma unregister_inv:
  assumes "distinct_names methods"
  shows "melo_jsonrpc_unregister_method grp method methods \<noteq> Some [] \<and>
         distinct_names (melo_jsonrpc_unregister_method grp method methods)"
proof (cases methods)
  case None
  then show ?thesis
    by (simp add: melo_jsonrpc_unregister_method_def g_hash_table_remove_def
        g_hash_table_size_def distinct_names_def)
next
  case (Some tbl)
  with assms show ?thesis
    by (simp add: melo_jsonrpc_unregister_method_def g_hash_table_remove_def
        g_hash_table_size_def distinct_names_def distinct_map_filter)
qed

lemma reachable_inv:
  "reachable methods \<Longrightarrow> methods \<noteq> Some [] \<and> distinct_names methods"
proof (induction rule: reachable.induct)
  case initial
  show ?case by (simp add: distinct_names_def)
next
  case (register ms g mn ps rs cb ud)
  from register_inv [OF register.IH] show ?case .
next
  case (unregister ms g mn)
  from unregister.IH have "distinct_names ms" by simp
  from unregister_inv [OF this] show ?case .
qed

text \<open>
  Claim C4. In every state that registrations and removals reach, registering a
  qualified name that is registered answers \<open>FALSE\<close> and leaves the table as it is, so
  the name still leads to the method registered first; and neither that state nor the
  state after any registration has two entries with the same qualified name.
\<close>

theorem C4_register_existing:
  assumes "reachable methods"
    and "registry_lookup methods (complete_method grp method) = Some m"
  shows "melo_jsonrpc_register_method grp method params result callback user_data methods =
           (False, methods) \<and>
         registry_lookup
           (snd (melo_jsonrpc_register_method grp method params result callback user_data methods))
           (complete_method grp method) = Some m \<and>
         distinct_names methods \<and>
         distinct_names
           (snd (melo_jsonrpc_register_method grp' method' params' result' callback' user_data'
                   methods))"
proof -
  from assms(2) obtain tbl where t: "methods = Some tbl"
    and l: "g_hash_table_lookup tbl (complete_method grp method) = Some m"
    by (cases methods) (auto simp: registry_lookup_def)
  have r: "melo_jsonrpc_register_method grp method params result callback user_data methods =
           (False, methods)"
    by (simp add: melo_jsonrpc_register_method_def t l)
  have d: "distinct_names methods"
    using reachable_inv [OF assms(1)] by simp
  have d': "distinct_names
           (snd (melo_jsonrpc_register_method grp' method' params' result' callback' user_data'
                   methods))"
    using reachable_inv [OF reachable.register [OF assms(1)]] by simp
  show ?thesis
    using r d d' assms(2) by simp
qed

theorem C4_register_existing_witness:
  "reachable foo_bar_methods \<and>
   registry_lookup foo_bar_methods (complete_method ''foo'' ''bar'') =
     Some \<lparr>m_params = None, m_result = None,
            m_callback = Some name_callback, m_user_data = ()\<rparr> \<and>
   melo_jsonrpc_register_method ''foo'' ''bar'' (Some []) None None () foo_bar_methods =
     (False, foo_bar_methods) \<and>
   distinct_names foo_bar_methods"
proof -
  have "reachable (snd (melo_jsonrpc_register_method ''foo'' ''bar'' None None
                          (Some name_callback) () None))"
    by (rule reachable.register [OF reachable.initial])
  then have r: "reachable foo_bar_methods"
    by (simp add: melo_jsonrpc_register_method_def g_hash_table_lookup_def
        complete_method_def foo_bar_methods_def)
  have l: "registry_lookup foo_bar_methods (complete_method ''foo'' ''bar'') =
     Some \<lparr>m_params = None, m_result = None,
            m_callback = Some name_callback, m_user_data = ()\<rparr>"
    by (simp add: registry_lookup_def g_hash_table_lookup_def complete_method_def
        foo_bar_methods_def)
  show ?thesis
    using r l C4_register_existing [OF r l, where params = "Some []" and result = None
                                      and callback = None and user_data = "()"]
    by simp
qed

section \<open>Unregistering\<close>

lemma registered_call_lookup:
  "registered_call methods name params =
     (case registry_lookup methods name of
        None \<Rightarrow> None
      | Some mm \<Rightarrow> (case m_callback mm of
                     None \<Rightarrow> None
                   | Some callback \<Rightarrow> Some (callback name (m_params mm) params (m_user_data mm))))"
  by (simp add: registered_call_def registry_lookup_def split: option.splits)

lemma lookup_unregister:
  "registry_lookup (melo_jsonrpc_unregister_method grp method methods) name =
     (if name = complete_method grp method then None else registry_lookup methods name)"
  by (cases methods)
     (auto simp: melo_jsonrpc_unregister_method_def Let_def g_hash_table_remove_def
        g_hash_table_size_def registry_lookup_def g_hash_table_lookup_def map_of_remove
        map_of_filter_empty)

text \<open>
  Claim C9. In every state that registrations and removals reach, unregistering a name
  leaves no entry under it and every other name as it was, so that a request with an
  \<open>id\<close> for the name is answered with Method Not Found; when the name is not
  registered, the table being \<open>NULL\<close> or not, the state is unchanged.
\<close>

theorem C9_unregister:
  assumes "reachable methods"
  shows "registry_lookup (melo_jsonrpc_unregister_method grp mname methods)
           (complete_method grp mname) = None \<and>
         (name \<noteq> complete_method grp mname \<longrightarrow>
            registry_lookup (melo_jsonrpc_unregister_method grp mname methods) name =
            registry_lookup methods name) \<and>
         (valid_request obj \<and> map_of obj ''method'' = Some (JString (complete_method grp mname)) \<and>
          json_object_has_member obj ''id'' \<longrightarrow>
            melo_jsonrpc_parse_node (melo_jsonrpc_unregister_method grp mname methods)
              (JObject obj) w =
            (Some (melo_jsonrpc_build_error (json_object_get_string_member obj ''id'')
                     (json_object_get_int_member obj ''id'')
                     MELO_JSONRPC_ERROR_METHOD_NOT_FOUND ''Method not found''), w)) \<and>
         (registry_lookup methods (complete_method grp mname) = None \<longrightarrow>
            melo_jsonrpc_unregister_method grp mname methods = methods)"
proof -
  have c: "melo_jsonrpc_unregister_method grp mname methods = methods"
    if "registry_lookup methods (complete_method grp mname) = None"
  proof (cases methods)
    case None
    then show ?thesis
      by (simp add: melo_jsonrpc_unregister_method_def g_hash_table_remove_def
          g_hash_table_size_def)
  next
    case (Some tbl)
    with reachable_inv [OF assms] have "tbl \<noteq> []" by simp
    moreover have "map_of tbl (complete_method grp mname) = None"
      using that Some by (simp add: registry_lookup_def g_hash_table_lookup_def)
    ultimately show ?thesis
      using Some
      by (simp add: melo_jsonrpc_unregister_method_def g_hash_table_remove_def
          g_hash_table_size_def filter_absent)
  qed
  have b: "melo_jsonrpc_parse_node (melo_jsonrpc_unregister_method grp mname methods)
              (JObject obj) w =
            (Some (melo_jsonrpc_build_error (json_object_get_string_member obj ''id'')
                     (json_object_get_int_member obj ''id'')
                     MELO_JSONRPC_ERROR_METHOD_NOT_FOUND ''Method not found''), w)"
    if "valid_request obj" "map_of obj ''method'' = Some (JString (complete_method grp mname))"
      "json_object_has_member obj ''id''"
    using that(3)
    by (simp add: parse_node_valid [OF that(1,2)] registered_call_lookup lookup_unregister
        json_object_has_member_def)
  show ?thesis
    using b c by (simp add: lookup_unregister)
qed


theorem C9_unregister_witness:
  "reachable foo_bar_methods \<and>
   registry_lookup (melo_jsonrpc_unregister_method ''foo'' ''bar'' foo_bar_methods)
     (complete_method ''foo'' ''bar'') = None \<and>
   registry_lookup foo_bar_methods (complete_method ''foo'' ''baz'') = None \<and>
   melo_jsonrpc_unregister_method ''foo'' ''baz'' foo_bar_methods = foo_bar_methods \<and>
   reachable (None :: (unit, unit) GHashTable option) \<and>
   melo_jsonrpc_unregister_method ''foo'' ''bar'' (None :: (unit, unit) GHashTable option) = None"
proof -
  have "reachable (snd (melo_jsonrpc_register_method ''foo'' ''bar'' None None
                          (Some name_callback) () None))"
    by (rule reachable.register [OF reachable.initial])
  then have r: "reachable foo_bar_methods"
    by (simp add: melo_jsonrpc_register_method_def g_hash_table_lookup_def
        complete_method_def foo_bar_methods_def)
  have l: "registry_lookup foo_bar_methods (complete_method ''foo'' ''baz'') = None"
    by (simp add: registry_lookup_def g_hash_table_lookup_def complete_method_def
        foo_bar_methods_def)
  have n: "registry_lookup (None :: (unit, unit) GHashTable option)
             (complete_method ''foo'' ''bar'') = None"
    by (simp add: registry_lookup_def)
  note a = C9_unregister [OF r, where grp = "''foo''" and mname = "''bar''", THEN conjunct1]
  note b = C9_unregister [OF r, where grp = "''foo''" and mname = "''baz''",
             THEN conjunct2, THEN conjunct2, THEN conjunct2, THEN mp, OF l]
  note c = C9_unregister [OF reachable.initial, where grp = "''foo''" and mname = "''bar''",
             THEN conjunct2, THEN conjunct2, THEN conjunct2, THEN mp, OF n]
  show ?thesis
    using r l a b c reachable.initial by simp
qed

section \<open>Bulk registration\<close>

lemma loop_passed_over:
  "passed_over load e \<Longrightarrow>
     register_methods_loop load grp (e # es) errors methods =
     register_methods_loop load grp es errors methods"
  by (auto simp: passed_over_def params_schema_def result_schema_def
      split: option.splits json.splits)

lemma loop_attempted:
  assumes "params_schema load e = Some ps" and "result_schema load e = Some rs"
  shows "register_methods_loop load grp (e # es) errors methods =
     (case melo_jsonrpc_register_method grp (mth_method e) ps rs
             (mth_callback e) (mth_user_data e) methods of
        (ret, methods') \<Rightarrow>
          register_methods_loop load grp es (if \<not> ret then errors + 1 else errors) methods')"
  using assms
  by (auto simp: params_schema_def result_schema_def split: option.splits json.splits)

lemma register_existing:
  "registry_lookup methods (complete_method grp method) \<noteq> None \<Longrightarrow>
     melo_jsonrpc_register_method grp method params result callback user_data methods =
       (False, methods)"
  by (cases methods)
     (auto simp: melo_jsonrpc_register_method_def registry_lookup_def)

lemma register_new:
  "registry_lookup methods (complete_method grp method) = None \<Longrightarrow>
     melo_jsonrpc_register_method grp method params result callback user_data methods =
       (True, Some (g_hash_table_insert (case methods of None \<Rightarrow> [] | Some t \<Rightarrow> t)
                      (complete_method grp method)
                      \<lparr>m_params = params, m_result = result,
                       m_callback = callback, m_user_data = user_data\<rparr>))"
  by (cases methods)
     (auto simp: melo_jsonrpc_register_method_def registry_lookup_def g_hash_table_lookup_def)

lemma register_size:
  "g_hash_table_size
     (snd (melo_jsonrpc_register_method grp method params result callback user_data methods)) +
   (if fst (melo_jsonrpc_register_method grp method params result callback user_data methods)
    then 0 else 1) = g_hash_table_size methods + 1"
  by (cases methods)
     (auto simp: melo_jsonrpc_register_method_def g_hash_table_size_def g_hash_table_lookup_def
        length_insert_new)

lemma loop_count:
  "g_hash_table_size (snd (register_methods_loop load grp es errors methods)) +
   fst (register_methods_loop load grp es errors methods) =
   g_hash_table_size methods + errors + length (filter (\<lambda>e. \<not> passed_over load e) es)"
proof (induction es arbitrary: errors methods)
  case Nil
  show ?case by simp
next
  case (Cons e es)
  show ?case
  proof (cases "passed_over load e")
    case True
    then show ?thesis
      by (simp add: loop_passed_over Cons.IH del: register_methods_loop.simps)
  next
    case False
    then obtain ps rs where s: "params_schema load e = Some ps" "result_schema load e = Some rs"
      by (auto simp: passed_over_def)
    obtain ret methods' where r:
      "melo_jsonrpc_register_method grp (mth_method e) ps rs
         (mth_callback e) (mth_user_data e) methods = (ret, methods')"
      by (cases "melo_jsonrpc_register_method grp (mth_method e) ps rs
         (mth_callback e) (mth_user_data e) methods")
    from register_size [of grp "mth_method e" ps rs "mth_callback e" "mth_user_data e" methods]
    have z: "g_hash_table_size methods' + (if ret then 0 else 1) = g_hash_table_size methods + 1"
      by (simp add: r)
    show ?thesis
      using False z
      by (simp add: loop_attempted [OF s] r Cons.IH del: register_methods_loop.simps
          split: if_splits)
  qed
qed

text \<open>The bulk operations reach no state that the single ones do not.\<close>

lemma reachable_register_methods_loop:
  "reachable methods \<Longrightarrow> reachable (snd (register_methods_loop load grp es errors methods))"
proof (induction es arbitrary: errors methods)
  case Nil
  then show ?case by simp
next
  case (Cons e es)
  show ?case
  proof (cases "passed_over load e")
    case True
    then show ?thesis
      using Cons.IH [OF Cons.prems]
      by (simp add: loop_passed_over del: register_methods_loop.simps)
  next
    case False
    then obtain ps rs where s: "params_schema load e = Some ps" "result_schema load e = Some rs"
      by (auto simp: passed_over_def)
    have "reachable (snd (melo_jsonrpc_register_method grp (mth_method e) ps rs
                            (mth_callback e) (mth_user_data e) methods))"
      using Cons.prems by (rule reachable.register)
    from Cons.IH [OF this] show ?thesis
      by (simp add: loop_attempted [OF s] split_beta del: register_methods_loop.simps)
  qed
qed

lemma reachable_register_methods:
  "reachable methods \<Longrightarrow> reachable (snd (melo_jsonrpc_register_methods load grp es methods))"
  by (simp add: melo_jsonrpc_register_methods_def reachable_register_methods_loop)

lemma reachable_unregister_methods:
  "reachable methods \<Longrightarrow> reachable (melo_jsonrpc_unregister_methods grp es methods)"
  by (induction es arbitrary: methods) (simp_all add: reachable.unregister)

lemma loop_count_attempted:
  assumes "\<forall>e \<in> set ms. \<not> passed_over load e"
  shows "g_hash_table_size (snd (melo_jsonrpc_register_methods load grp ms methods)) +
         fst (melo_jsonrpc_register_methods load grp ms methods) =
           g_hash_table_size methods + length ms"
proof -
  from assms have "filter (\<lambda>e. \<not> passed_over load e) ms = ms"
    by (simp add: filter_id_conv)
  with loop_count [of load grp ms 0 methods] show ?thesis
    by (simp add: melo_jsonrpc_register_methods_def)
qed

text \<open>
  Claim C8, as stated, has an entry whose schema string loads to a root of the wrong
  type registered without that schema. An entry whose \<open>params\<close> string is the object
  \<open>{}\<close> is not registered.
\<close>

theorem C8_wrong_shape_counterexample:
  "shape_load ''{}'' = Some (Some (JObject [])) \<and>
   snd (melo_jsonrpc_register_methods shape_load ''foo''
          [bulk_entry ''bar'' (Some ''{}'') None] None) = None \<and>
   registry_lookup
     (snd (melo_jsonrpc_register_methods shape_load ''foo''
             [bulk_entry ''bar'' (Some ''{}'') None] None))
     (complete_method ''foo'' ''bar'') = None"
  by (simp add: melo_jsonrpc_register_methods_def bulk_entry_def shape_load_def
      json_parser_load_from_data_def registry_lookup_def)

text \<open>
  Claim C8, amended. In a bulk registration, an entry one of whose schema strings loads
  to a root of the wrong type is not registered, and the entries after it are processed
  as they would be without it. For any other entry the registration is attempted with
  the schemas its strings give, a string that does not load giving the absent schema:
  when its qualified name is registered already the count goes up by one, the table
  stays and the loop goes on; when it is not, the method is added. When no entry of the
  call has a schema string of the wrong type, every entry either added one method to
  the table or added one to the returned count.
\<close>

theorem C8_register_methods:
  "(passed_over load e \<longrightarrow>
      snd (register_methods_loop load grp (e # es) errors methods) =
      snd (register_methods_loop load grp es errors methods)) \<and>
   (params_schema load e = Some ps \<and> result_schema load e = Some rs \<and>
    registry_lookup methods (complete_method grp (mth_method e)) \<noteq> None \<longrightarrow>
      register_methods_loop load grp (e # es) errors methods =
      register_methods_loop load grp es (errors + 1) methods) \<and>
   (params_schema load e = Some ps \<and> result_schema load e = Some rs \<and>
    registry_lookup methods (complete_method grp (mth_method e)) = None \<longrightarrow>
      register_methods_loop load grp (e # es) errors methods =
      register_methods_loop load grp es errors
        (Some (g_hash_table_insert (case methods of None \<Rightarrow> [] | Some t \<Rightarrow> t)
                 (complete_method grp (mth_method e))
                 \<lparr>m_params = ps, m_result = rs,
                  m_callback = mth_callback e, m_user_data = mth_user_data e\<rparr>))) \<and>
   (json_parser_load_from_data load (mth_params e) = None \<longrightarrow> params_schema load e = Some None) \<and>
   (json_parser_load_from_data load (mth_result e) = None \<longrightarrow> result_schema load e = Some None) \<and>
   ((\<forall>e \<in> set ms. \<not> passed_over load e) \<longrightarrow>
      g_hash_table_size (snd (melo_jsonrpc_register_methods load grp ms methods)) +
      fst (melo_jsonrpc_register_methods load grp ms methods) =
        g_hash_table_size methods + length ms)"
proof -
  have a: "register_methods_loop load grp (e # es) errors methods =
      register_methods_loop load grp es (errors + 1) methods"
    if "params_schema load e = Some ps" "result_schema load e = Some rs"
      "registry_lookup methods (complete_method grp (mth_method e)) \<noteq> None"
    by (simp add: loop_attempted [OF that(1,2)] register_existing [OF that(3)]
        del: register_methods_loop.simps)
  have b: "register_methods_loop load grp (e # es) errors methods =
      register_methods_loop load grp es errors
        (Some (g_hash_table_insert (case methods of None \<Rightarrow> [] | Some t \<Rightarrow> t)
                 (complete_method grp (mth_method e))
                 \<lparr>m_params = ps, m_result = rs,
                  m_callback = mth_callback e, m_user_data = mth_user_data e\<rparr>))"
    if "params_schema load e = Some ps" "result_schema load e = Some rs"
      "registry_lookup methods (complete_method grp (mth_method e)) = None"
    by (simp add: loop_attempted [OF that(1,2)] register_new [OF that(3)]
        del: register_methods_loop.simps)
  have p: "snd (register_methods_loop load grp (e # es) errors methods) =
      snd (register_methods_loop load grp es errors methods)"
    if "passed_over load e"
    using that by (simp add: loop_passed_over del: register_methods_loop.simps)
  show ?thesis
    using a b p loop_count_attempted [of ms load grp methods]
    by (simp add: params_schema_def result_schema_def del: register_methods_loop.simps)
qed

text \<open>
  An entry with an object for its \<open>params\<close> before an entry that registers; and a call of
  three entries, the second a duplicate of the first and the third with a \<open>params\<close>
  string that does not load.
\<close>

theorem C8_register_methods_witness:
  "passed_over shape_load (bulk_entry ''qux'' (Some ''{}'') None) \<and>
   snd (register_methods_loop shape_load ''foo''
          [bulk_entry ''qux'' (Some ''{}'') None, bulk_entry ''bar'' None None] 0 None) =
     Some [(''foo.bar'', \<lparr>m_params = None, m_result = None,
                            m_callback = Some name_callback, m_user_data = ()\<rparr>)] \<and>
   params_schema shape_load (bulk_entry ''baz'' (Some ''oops'') (Some ''{}'')) = Some None \<and>
   melo_jsonrpc_register_methods shape_load ''foo''
     [bulk_entry ''bar'' (Some ''[]'') (Some ''{}''),
      bulk_entry ''bar'' None None,
      bulk_entry ''baz'' (Some ''oops'') (Some ''{}'')] None =
     (1, Some [(''foo.bar'', \<lparr>m_params = Some [], m_result = Some [],
                                m_callback = Some name_callback, m_user_data = ()\<rparr>),
               (''foo.baz'', \<lparr>m_params = None, m_result = Some [],
                                m_callback = Some name_callback, m_user_data = ()\<rparr>)]) \<and>
   g_hash_table_size
     (snd (melo_jsonrpc_register_methods shape_load ''foo''
             [bulk_entry ''bar'' (Some ''[]'') (Some ''{}''),
              bulk_entry ''bar'' None None,
              bulk_entry ''baz'' (Some ''oops'') (Some ''{}'')] None)) +
   fst (melo_jsonrpc_register_methods shape_load ''foo''
          [bulk_entry ''bar'' (Some ''[]'') (Some ''{}''),
           bulk_entry ''bar'' None None,
           bulk_entry ''baz'' (Some ''oops'') (Some ''{}'')] None) = 3"
proof -
  let ?ms = "[bulk_entry ''bar'' (Some ''[]'') (Some ''{}''),
              bulk_entry ''bar'' None None,
              bulk_entry ''baz'' (Some ''oops'') (Some ''{}'')]"
  have p: "passed_over shape_load (bulk_entry ''qux'' (Some ''{}'') None)"
    by (simp add: passed_over_def params_schema_def bulk_entry_def shape_load_def
        json_parser_load_from_data_def)
  have r: "snd (register_methods_loop shape_load ''foo'' [bulk_entry ''bar'' None None] 0 None) =
     Some [(''foo.bar'', \<lparr>m_params = None, m_result = None,
                            m_callback = Some name_callback, m_user_data = ()\<rparr>)]"
    by (simp add: bulk_entry_def json_parser_load_from_data_def melo_jsonrpc_register_method_def
        g_hash_table_lookup_def complete_method_def)
  note s = C8_register_methods [where load = shape_load and e = "bulk_entry ''qux'' (Some ''{}'') None"
                 and grp = "''foo''" and es = "[bulk_entry ''bar'' None None]"
                 and errors = 0 and methods = None,
               THEN conjunct1, THEN mp, OF p]
  have q: "params_schema shape_load (bulk_entry ''baz'' (Some ''oops'') (Some ''{}'')) = Some None"
    by (simp add: params_schema_def bulk_entry_def shape_load_def json_parser_load_from_data_def)
  have e: "melo_jsonrpc_register_methods shape_load ''foo'' ?ms None =
     (1, Some [(''foo.bar'', \<lparr>m_params = Some [], m_result = Some [],
                                m_callback = Some name_callback, m_user_data = ()\<rparr>),
               (''foo.baz'', \<lparr>m_params = None, m_result = Some [],
                                m_callback = Some name_callback, m_user_data = ()\<rparr>)])"
    by (simp add: melo_jsonrpc_register_methods_def bulk_entry_def shape_load_def
        json_parser_load_from_data_def melo_jsonrpc_register_method_def
        g_hash_table_lookup_def complete_method_def)
  have n: "\<forall>e \<in> set ?ms. \<not> passed_over shape_load e"
    by (simp add: passed_over_def params_schema_def result_schema_def bulk_entry_def
        shape_load_def json_parser_load_from_data_def)
  note c = C8_register_methods [where load = shape_load and grp = "''foo''" and ms = ?ms
             and methods = None, THEN conjunct2, THEN conjunct2, THEN conjunct2,
             THEN conjunct2, THEN conjunct2, THEN mp, OF n]
  show ?thesis
    using p q e c s [unfolded r] by (simp add: g_hash_table_size_def)
qed


text \<open>
  The doc comment of \<open>melo_jsonrpc_register_methods\<close> gives the returned number as that of
  the methods that have not been registered. An entry that is passed over hits
  \<open>continue\<close> before the counter: it is not registered, and the number returned is 0.
\<close>

lemma register_methods_passed_over_uncounted:
  "melo_jsonrpc_register_methods shape_load ''foo''
     [bulk_entry ''bar'' (Some ''{}'') None] None = (0, None)"
  by (simp add: melo_jsonrpc_register_methods_def bulk_entry_def shape_load_def
      json_parser_load_from_data_def)

section \<open>Types of the values\<close>

lemma add_node_accepts:
  "(melo_jsonrpc_add_node node schema obj array \<noteq> None) = entry_accepts (JObject schema) node"
proof (cases "json_object_get_string_member schema ''name''")
  case None
  then show ?thesis
    by (simp add: melo_jsonrpc_add_node_def entry_accepts_def entry_name_def)
next
  case n: (Some s_name)
  show ?thesis
  proof (cases "json_object_get_string_member schema ''type''")
    case None
    then show ?thesis
      by (simp add: melo_jsonrpc_add_node_def entry_accepts_def entry_name_def entry_type_def n)
  next
    case t: (Some s_type)
    show ?thesis
    proof (cases s_type)
      case Nil
      then show ?thesis
        by (simp add: melo_jsonrpc_add_node_def entry_accepts_def entry_name_def
            entry_type_def n t)
    next
      case (Cons c cs)
      then show ?thesis
        by (cases node)
           (simp_all add: melo_jsonrpc_add_node_def entry_accepts_def entry_name_def
              entry_type_def n t Let_def)
    qed
  qed
qed

lemma add_node_rejects:
  "\<not> entry_accepts (JObject schema) node \<Longrightarrow> melo_jsonrpc_add_node node schema obj array = None"
  using add_node_accepts [of node schema obj array] by blast

lemma add_to_object_or_array_mode:
  "add_to_object_or_array obj array s_name v = (obj', array') \<Longrightarrow>
     (obj' = None) = (obj = None) \<and> (array' = None) = (array = None)"
  by (auto simp: add_to_object_or_array_def split: option.splits)

lemma add_node_mode:
  assumes "melo_jsonrpc_add_node node schema obj array = Some (obj', array')"
  shows "(obj' = None) = (obj = None) \<and> (array' = None) = (array = None)"
proof -
  from assms obtain s_name w where
    "add_to_object_or_array obj array s_name w = (obj', array')"
    by (auto simp: melo_jsonrpc_add_node_def Let_def split: option.splits list.splits if_splits)
  then show ?thesis
    by (rule add_to_object_or_array_mode)
qed

lemma array_loop_mismatch:
  assumes "i < length sp" and "i < length a" and "\<not> entry_accepts (sp ! i) (a ! i)"
  shows "\<not> fst (get_json_node_array_loop sp a obj array)"
  using assms
proof (induction sp arbitrary: i a obj array)
  case Nil
  then show ?case by simp
next
  case (Cons e es)
  from Cons.prems(2) obtain node a' where a: "a = node # a'"
    by (cases a) auto
  show ?case
  proof (cases "json_array_get_object_element e")
    case None
    then show ?thesis by simp
  next
    case (Some schema)
    then have e: "e = JObject schema"
      by (cases e) auto
    show ?thesis
    proof (cases i)
      case 0
      with Cons.prems(3) have "\<not> entry_accepts (JObject schema) node"
        by (simp add: a e)
      then have "melo_jsonrpc_add_node node schema obj array = None"
        by (rule add_node_rejects)
      then show ?thesis
        by (simp add: a e)
    next
      case (Suc k)
      with Cons.prems have k: "k < length es" "k < length a'" "\<not> entry_accepts (es ! k) (a' ! k)"
        by (simp_all add: a)
      show ?thesis
        using Cons.IH [OF k]
        by (simp add: a e split: option.splits)
    qed
  qed
qed

lemma object_loop_mismatch:
  assumes "i < length sp" and "entry_name (sp ! i) = Some name" and "map_of ob name = Some v"
    and "\<not> entry_accepts (sp ! i) v"
    and "obj = None \<and> array \<noteq> None \<longrightarrow> (\<forall>j<i. present_in ob (sp ! j))"
  shows "\<not> fst (get_json_node_object_loop sp ob obj array)"
  using assms
proof (induction sp arbitrary: i obj array)
  case Nil
  then show ?case by simp
next
  case (Cons e es)
  show ?case
  proof (cases "json_array_get_object_element e")
    case None
    then show ?thesis by simp
  next
    case (Some schema)
    then have e: "e = JObject schema"
      by (cases e) auto
    show ?thesis
    proof (cases i)
      case 0
      with Cons.prems have n: "json_object_get_string_member schema ''name'' = Some name"
        and "\<not> entry_accepts (JObject schema) v"
        by (simp_all add: e entry_name_def)
      then have "melo_jsonrpc_add_node v schema obj array = None"
        by (simp add: add_node_rejects)
      then show ?thesis
        by (simp add: e n json_object_get_member_def Cons.prems(3))
    next
      case (Suc k)
      with Cons.prems have k: "k < length es" "entry_name (es ! k) = Some name"
        "\<not> entry_accepts (es ! k) v"
        by simp_all
      have later: "\<not> fst (get_json_node_object_loop es ob obj' array')"
        if "(obj' = None) = (obj = None)" "(array' = None) = (array = None)" for obj' array'
      proof -
        have "obj' = None \<and> array' \<noteq> None \<longrightarrow> (\<forall>j<k. present_in ob (es ! j))"
          using Cons.prems(5) that Suc by auto
        from Cons.IH [OF k(1,2) Cons.prems(3) k(3) this] show ?thesis .
      qed
      have stop: "\<not> (obj = None \<and> array \<noteq> None)"
        if "json_object_get_string_member schema ''name'' = Some n" "map_of ob n = None" for n
        using Cons.prems(5) that Suc
        by (auto simp: present_in_def entry_name_def e)
      show ?thesis
        using later stop add_node_mode
        by (auto simp: e json_object_get_member_def split: option.splits)
    qed
  qed
qed

lemma get_json_node_object_failed:
  assumes "\<not> fst (get_json_node_object_loop sp ob obj array)"
  shows "\<exists>obj' array'. melo_jsonrpc_get_json_node (Some sp) (Some (JObject ob)) obj array (Some None) =
           (False, obj', array', Some (Some invalid_params_error))"
  using assms
  by (cases "get_json_node_object_loop sp ob obj array")
     (auto simp: melo_jsonrpc_get_json_node_def set_error_def invalid_params_error_def)

lemma get_json_node_array_failed:
  assumes "\<not> fst (get_json_node_array_loop sp a obj array)"
  shows "\<exists>obj' array'. melo_jsonrpc_get_json_node (Some sp) (Some (JArray a)) obj array (Some None) =
           (False, obj', array', Some (Some invalid_params_error))"
  using assms
  by (cases "get_json_node_array_loop sp a obj array")
     (auto simp: melo_jsonrpc_get_json_node_def set_error_def invalid_params_error_def)

lemma walk_mismatch:
  assumes "i < length sp" and "value_at sp p i = Some v" and "\<not> entry_accepts (sp ! i) v"
    and "obj = None \<and> array \<noteq> None \<longrightarrow> (\<forall>j<i. value_at sp p j \<noteq> None)"
  shows "\<exists>obj' array'. melo_jsonrpc_get_json_node (Some sp) (Some p) obj array (Some None) =
           (False, obj', array', Some (Some invalid_params_error))"
proof (cases p)
  case (JArray a)
  with assms(2) have "i < length a" "a ! i = v"
    by (auto simp: value_at_def split: if_splits)
  with assms(1,3) have "\<not> fst (get_json_node_array_loop sp a obj array)"
    by (simp add: array_loop_mismatch)
  then show ?thesis
    unfolding JArray by (rule get_json_node_array_failed)
next
  case (JObject ob)
  with assms(1,2) obtain name where n: "entry_name (sp ! i) = Some name" "map_of ob name = Some v"
    by (auto simp: value_at_def split: option.splits)
  have "obj = None \<and> array \<noteq> None \<longrightarrow> (\<forall>j<i. present_in ob (sp ! j))"
    using assms(1,4) JObject
    by (auto simp: value_at_def present_in_def split: option.splits)
  from object_loop_mismatch [OF assms(1) n assms(3) this]
  show ?thesis
    unfolding JObject by (rule get_json_node_object_failed)
qed (use assms(2) in \<open>simp_all add: value_at_def\<close>)

text \<open>
  The conversion of a keyed mapping to an array, at the first entry whose value is
  absent, when that entry is optional and the values before it were accepted.
\<close>

lemma add_node_array_value:
  assumes "entry_accepts (JObject schema) v"
  shows "melo_jsonrpc_add_node v schema None (Some acc) = Some (None, Some (acc @ [v]))"
proof -
  from assms obtain s_name where
    n: "json_object_get_string_member schema ''name'' = Some s_name"
    by (cases "json_object_get_string_member schema ''name''")
       (simp_all add: entry_accepts_def entry_name_def)
  from assms obtain s_type where
    t: "json_object_get_string_member schema ''type'' = Some s_type"
    by (cases "json_object_get_string_member schema ''type''")
       (simp_all add: entry_accepts_def entry_type_def)
  from assms have "entry_type (JObject schema) = wire_type v"
    and "entry_type (JObject schema) \<noteq> None"
    unfolding entry_accepts_def by blast+
  then have d: "declared_type s_type = wire_type v" "declared_type s_type \<noteq> None"
    by (simp_all add: entry_type_def t)
  from d(2) obtain c cs where c: "s_type = c # cs"
    by (cases s_type) auto
  show ?thesis
    using d
    by (cases v)
       (auto simp: melo_jsonrpc_add_node_def n t c Let_def add_to_object_or_array_def
          json_string_or_null_def split: if_splits)
qed

lemma object_loop_array_stop:
  assumes "k < length sp"
    and "\<forall>j<k. \<exists>w. value_at sp (JObject ob) j = Some w \<and> entry_accepts (sp ! j) w"
    and "entry_name (sp ! k) = Some name" and "map_of ob name = None"
    and "optional_entry (sp ! k)"
  shows "get_json_node_object_loop sp ob None (Some acc) =
           (True, None, Some (acc @ keyed_values ob (take k sp)))"
  using assms
proof (induction sp arbitrary: k acc)
  case Nil
  then show ?case by simp
next
  case (Cons e es)
  show ?case
  proof (cases k)
    case 0
    with Cons.prems(3,5) obtain schema r where e: "e = JObject schema"
      and n: "json_object_get_string_member schema ''name'' = Some name"
      and r: "json_object_get_member schema ''required'' = Some r" "\<not> json_node_get_boolean r"
      by (cases e) (auto simp: entry_name_def optional_entry_def split: option.splits)
    show ?thesis
      using 0 r
      by (simp add: e n json_object_get_member_def Cons.prems(4) keyed_values_def)
  next
    case (Suc k')
    from Cons.prems(2) Suc obtain w where
      w: "value_at (e # es) (JObject ob) 0 = Some w" "entry_accepts e w"
      by fastforce
    then obtain n0 where n0: "entry_name e = Some n0" "map_of ob n0 = Some w"
      by (auto simp: value_at_def split: option.splits)
    then obtain schema where e: "e = JObject schema"
      and sn: "json_object_get_string_member schema ''name'' = Some n0"
      by (cases e) (auto simp: entry_name_def)
    have a: "melo_jsonrpc_add_node w schema None (Some acc) = Some (None, Some (acc @ [w]))"
      using w(2) unfolding e by (rule add_node_array_value)
    have p: "\<forall>j<k'. \<exists>w. value_at es (JObject ob) j = Some w \<and> entry_accepts (es ! j) w"
    proof (intro allI impI)
      fix j assume "j < k'"
      with Cons.prems(2) Suc obtain x where
        "value_at (e # es) (JObject ob) (Suc j) = Some x" "entry_accepts ((e # es) ! Suc j) x"
        by fastforce
      then show "\<exists>w. value_at es (JObject ob) j = Some w \<and> entry_accepts (es ! j) w"
        by (auto simp: value_at_def split: if_splits)
    qed
    have "get_json_node_object_loop es ob None (Some (acc @ [w])) =
           (True, None, Some ((acc @ [w]) @ keyed_values ob (take k' es)))"
      using Cons.IH [OF _ p, where acc = "acc @ [w]"] Cons.prems(1,3,4,5) Suc by simp
    then show ?thesis
      using Suc
      using n0(1) [unfolded e]
      by (simp add: e sn json_object_get_member_def n0(2) a keyed_values_def)
  qed
qed

lemma get_array_stop:
  assumes "k < length sp"
    and "\<forall>j<k. \<exists>w. value_at sp (JObject ob) j = Some w \<and> entry_accepts (sp ! j) w"
    and "entry_name (sp ! k) = Some name" and "map_of ob name = None"
    and "optional_entry (sp ! k)"
  shows "melo_jsonrpc_get_array (Some sp) (Some (JObject ob)) error =
           (Some (keyed_values ob (take k sp)), error)"
  using object_loop_array_stop [OF assms, of "[]"]
  by (simp add: melo_jsonrpc_get_array_def melo_jsonrpc_get_json_node_def)

text \<open>
  Claim C5, as stated, has every present value of the wrong type fail the operation.
  With the schema \<open>[{"name":"a","type":"int","required":false},{"name":"b","type":"int"}]\<close>
  and the keyed mapping \<open>{"b":"x"}\<close>, the conversion to an array stops with success at
  the absent optional \<open>a\<close> and never looks at the string under \<open>b\<close>.
\<close>

theorem C5_abandoned_entry_counterexample:
  "value_at [JObject [(''name'', JString ''a''), (''type'', JString ''int''),
                      (''required'', JBool False)],
             JObject [(''name'', JString ''b''), (''type'', JString ''int'')]]
     (JObject [(''b'', JString ''x'')]) 1 = Some (JString ''x'') \<and>
   \<not> entry_accepts
       ([JObject [(''name'', JString ''a''), (''type'', JString ''int''),
                  (''required'', JBool False)],
         JObject [(''name'', JString ''b''), (''type'', JString ''int'')]] ! 1)
       (JString ''x'') \<and>
   melo_jsonrpc_get_array
     (Some [JObject [(''name'', JString ''a''), (''type'', JString ''int''),
                     (''required'', JBool False)],
            JObject [(''name'', JString ''b''), (''type'', JString ''int'')]])
     (Some (JObject [(''b'', JString ''x'')])) (Some None) = (Some [], Some None)"
  by (simp add: value_at_def entry_name_def entry_accepts_def entry_type_def
      json_object_get_string_member_def melo_jsonrpc_get_array_def
      melo_jsonrpc_get_json_node_def json_object_get_member_def)

text \<open>
  Claim C5, amended. \<open>melo_jsonrpc_add_node\<close> accepts a value for an entry exactly when
  the entry has a name and the value's JSON type is the type the entry declares (by the
  first letter of its type string; integer and double are different types, and a null
  has no type). For an entry of the schema and a value present at its position or under
  its name whose type is not the declared one, the check and the conversion to an object
  fail, and an empty error slot receives Invalid Params; so does the conversion to an
  array when every entry before that one has its value present, which is always so for
  a positional sequence. The conversion of a keyed mapping to an array, at the first
  entry whose value is absent, that entry being optional and the values before it
  accepted, stops with success: the array holds the values before that entry, whatever
  the entries after it and the values under their names are.
\<close>

theorem C5_type_mismatch:
  "(\<forall>schema node obj array.
      (melo_jsonrpc_add_node node schema obj array \<noteq> None) =
      entry_accepts (JObject schema) node) \<and>
   (i < length sp \<and> value_at sp p i = Some v \<and> \<not> entry_accepts (sp ! i) v \<longrightarrow>
      melo_jsonrpc_check_params (Some sp) (Some p) (Some None) =
        (False, Some (Some invalid_params_error)) \<and>
      melo_jsonrpc_get_object (Some sp) (Some p) (Some None) =
        (None, Some (Some invalid_params_error)) \<and>
      ((\<forall>j<i. value_at sp p j \<noteq> None) \<longrightarrow>
         melo_jsonrpc_get_array (Some sp) (Some p) (Some None) =
           (None, Some (Some invalid_params_error))) \<and>
      (\<forall>a. p = JArray a \<longrightarrow>
         melo_jsonrpc_get_array (Some sp) (Some p) (Some None) =
           (None, Some (Some invalid_params_error)))) \<and>
   (k < length sp \<and>
    (\<forall>j<k. \<exists>w. value_at sp (JObject ob) j = Some w \<and> entry_accepts (sp ! j) w) \<and>
    entry_name (sp ! k) = Some name \<and> map_of ob name = None \<and> optional_entry (sp ! k) \<longrightarrow>
      melo_jsonrpc_get_array (Some sp) (Some (JObject ob)) error =
        (Some (keyed_values ob (take k sp)), error))"
proof -
  have m: "melo_jsonrpc_check_params (Some sp) (Some p) (Some None) =
        (False, Some (Some invalid_params_error)) \<and>
      melo_jsonrpc_get_object (Some sp) (Some p) (Some None) =
        (None, Some (Some invalid_params_error)) \<and>
      ((\<forall>j<i. value_at sp p j \<noteq> None) \<longrightarrow>
         melo_jsonrpc_get_array (Some sp) (Some p) (Some None) =
           (None, Some (Some invalid_params_error))) \<and>
      (\<forall>a. p = JArray a \<longrightarrow>
         melo_jsonrpc_get_array (Some sp) (Some p) (Some None) =
           (None, Some (Some invalid_params_error)))"
    if h: "i < length sp" "value_at sp p i = Some v" "\<not> entry_accepts (sp ! i) v"
  proof -
    have c: "melo_jsonrpc_check_params (Some sp) (Some p) (Some None) =
             (False, Some (Some invalid_params_error))"
      using walk_mismatch [OF h, of None None]
      by (auto simp: melo_jsonrpc_check_params_def)
    have o: "melo_jsonrpc_get_object (Some sp) (Some p) (Some None) =
             (None, Some (Some invalid_params_error))"
      using walk_mismatch [OF h, of "Some []" None]
      by (auto simp: melo_jsonrpc_get_object_def)
    have a: "melo_jsonrpc_get_array (Some sp) (Some p) (Some None) =
                (None, Some (Some invalid_params_error))"
      if "\<forall>j<i. value_at sp p j \<noteq> None"
      using walk_mismatch [OF h, of None "Some []"] that
      by (auto simp: melo_jsonrpc_get_array_def)
    have "\<forall>j<i. value_at sp p j \<noteq> None" if "p = JArray a" for a
      using h(2) that by (auto simp: value_at_def split: if_splits)
    with a have "\<forall>a. p = JArray a \<longrightarrow>
         melo_jsonrpc_get_array (Some sp) (Some p) (Some None) =
           (None, Some (Some invalid_params_error))"
      by blast
    with c o a show ?thesis
      by blast
  qed
  have s: "melo_jsonrpc_get_array (Some sp) (Some (JObject ob)) error =
        (Some (keyed_values ob (take k sp)), error)"
    if "k < length sp"
      "\<forall>j<k. \<exists>w. value_at sp (JObject ob) j = Some w \<and> entry_accepts (sp ! j) w"
      "entry_name (sp ! k) = Some name" "map_of ob name = None" "optional_entry (sp ! k)"
    using that by (rule get_array_stop)
  show ?thesis
    using m s add_node_accepts by blast
qed

text \<open>
  A string where an integer is declared, under the name of the second entry, the value
  of the first entry being present; a double where an integer is declared, at the second
  position; and a keyed mapping without the optional second of three entries, with a
  string under the name of the third, which declares an integer.
\<close>

theorem C5_type_mismatch_witness:
  "melo_jsonrpc_check_params
     (Some [JObject [(''name'', JString ''a''), (''type'', JString ''int'')],
            JObject [(''name'', JString ''b''), (''type'', JString ''int'')]])
     (Some (JObject [(''a'', JInt 1), (''b'', JString ''x'')])) (Some None) =
     (False, Some (Some invalid_params_error)) \<and>
   melo_jsonrpc_get_object
     (Some [JObject [(''name'', JString ''a''), (''type'', JString ''int'')],
            JObject [(''name'', JString ''b''), (''type'', JString ''int'')]])
     (Some (JObject [(''a'', JInt 1), (''b'', JString ''x'')])) (Some None) =
     (None, Some (Some invalid_params_error)) \<and>
   melo_jsonrpc_get_array
     (Some [JObject [(''name'', JString ''a''), (''type'', JString ''int'')],
            JObject [(''name'', JString ''b''), (''type'', JString ''int'')]])
     (Some (JObject [(''a'', JInt 1), (''b'', JString ''x'')])) (Some None) =
     (None, Some (Some invalid_params_error)) \<and>
   melo_jsonrpc_get_array
     (Some [JObject [(''name'', JString ''a''), (''type'', JString ''int'')],
            JObject [(''name'', JString ''b''), (''type'', JString ''int'')]])
     (Some (JArray [JInt 1, JDouble 2])) (Some None) =
     (None, Some (Some invalid_params_error)) \<and>
   melo_jsonrpc_get_array
     (Some [JObject [(''name'', JString ''a''), (''type'', JString ''int'')],
            JObject [(''name'', JString ''b''), (''type'', JString ''int''),
                     (''required'', JBool False)],
            JObject [(''name'', JString ''c''), (''type'', JString ''int'')]])
     (Some (JObject [(''a'', JInt 1), (''c'', JString ''x'')])) (Some None) =
     (Some [JInt 1], Some None)"
proof -
  let ?sp = "[JObject [(''name'', JString ''a''), (''type'', JString ''int'')],
              JObject [(''name'', JString ''b''), (''type'', JString ''int'')]]"
  let ?p = "JObject [(''a'', JInt 1), (''b'', JString ''x'')]"
  let ?q = "JArray [JInt 1, JDouble 2]"
  let ?sp3 = "[JObject [(''name'', JString ''a''), (''type'', JString ''int'')],
               JObject [(''name'', JString ''b''), (''type'', JString ''int''),
                        (''required'', JBool False)],
               JObject [(''name'', JString ''c''), (''type'', JString ''int'')]]"
  let ?ob = "[(''a'', JInt 1), (''c'', JString ''x'')]"
  have h: "1 < length ?sp \<and> value_at ?sp ?p 1 = Some (JString ''x'') \<and>
           \<not> entry_accepts (?sp ! 1) (JString ''x'')"
    by (simp add: value_at_def entry_name_def entry_accepts_def entry_type_def
        json_object_get_string_member_def)
  have e: "\<forall>j<1. value_at ?sp ?p j \<noteq> None"
    by (simp add: value_at_def entry_name_def json_object_get_string_member_def)
  have h': "1 < length ?sp \<and> value_at ?sp ?q 1 = Some (JDouble 2) \<and>
           \<not> entry_accepts (?sp ! 1) (JDouble 2)"
    by (simp add: value_at_def entry_name_def entry_accepts_def entry_type_def
        json_object_get_string_member_def)
  have g: "1 < length ?sp3 \<and>
    (\<forall>j<1. \<exists>w. value_at ?sp3 (JObject ?ob) j = Some w \<and> entry_accepts (?sp3 ! j) w) \<and>
    entry_name (?sp3 ! 1) = Some ''b'' \<and> map_of ?ob ''b'' = None \<and> optional_entry (?sp3 ! 1)"
    by (simp add: value_at_def entry_name_def entry_accepts_def entry_type_def
        json_object_get_string_member_def optional_entry_def json_object_get_member_def)
  note m = C5_type_mismatch [where sp = ?sp and p = ?p and i = 1 and v = "JString ''x''",
               THEN conjunct2, THEN conjunct1, THEN mp, OF h]
  note m' = C5_type_mismatch [where sp = ?sp and p = ?q and i = 1 and v = "JDouble 2",
               THEN conjunct2, THEN conjunct1, THEN mp, OF h']
  note s = C5_type_mismatch [where sp = ?sp3 and ob = ?ob and k = 1 and name = "''b''" and error = "Some None",
               THEN conjunct2, THEN conjunct2, THEN mp, OF g]
  have k: "keyed_values ?ob (take 1 ?sp3) = [JInt 1]"
    by (simp add: keyed_values_def List.map_filter_simps entry_name_def
        json_object_get_string_member_def)
  show ?thesis
    using m [THEN conjunct1] m [THEN conjunct2, THEN conjunct1]
      m [THEN conjunct2, THEN conjunct2, THEN conjunct1, THEN mp, OF e]
      m' [THEN conjunct2, THEN conjunct2, THEN conjunct2, THEN spec, THEN mp, OF refl]
      s [unfolded k]
    by simp
qed


end
